theory Spec2Isabelle
  imports Complex_Main "HOL-Library.Signed_Division" "HOL-Library.Sublist" "HOL-Library.FSet"
begin

section \<open>Errors\<close>

text \<open>
  Exceptions and failed assertions are values. \<open>index_out_of_range\<close> and
  \<open>shapes_do_not_match\<close> are the classes of \<^verbatim>\<open>Dune::Stuff::Exceptions\<close>, \<open>RangeError\<close> is
  \<^verbatim>\<open>Dune::RangeError\<close>; each carries the message handed to \<^verbatim>\<open>DUNE_THROW\<close>.
  \<open>assertion_failed\<close> is a failed \<^verbatim>\<open>assert\<close> (also the index assertion inside the Eigen
  accessor), \<open>invalid_backend\<close> is the dereference of a \<^verbatim>\<open>shared_ptr\<close> that holds no
  backend, \<open>std_out_of_range\<close> is what \<^verbatim>\<open>std::string::substr\<close> throws.
\<close>

datatype error =
    index_out_of_range string
  | shapes_do_not_match string
  | RangeError string
  | assertion_failed
  | invalid_backend
  | std_out_of_range

text \<open>\<^verbatim>\<open>stream << n\<close> for an unsigned integer: its decimal digits.\<close>

fun digit_char :: "nat \<Rightarrow> char" where
  "digit_char n = ''0123456789'' ! (n mod 10)"

function show_nat :: "nat \<Rightarrow> string" where
  "show_nat n = (if n < 10 then [digit_char n] else show_nat (n div 10) @ [digit_char (n mod 10)])"
  by pat_completeness auto
termination
  by (relation "measure id") auto

declare show_nat.simps [simp del]

section \<open>Common::wraparound_array (misc.hh)\<close>

text \<open>
  \<^verbatim>\<open>template< class T, int N > struct wraparound_array : public Dune::array< T, N >\<close>.
  The array is a list of its \<open>N\<close> elements. The subscript operator of the base class does no
  range check; an access outside the \<open>N\<close> elements is the value \<open>None\<close>.
\<close>

definition base_subscript :: "'a list \<Rightarrow> nat \<Rightarrow> 'a option" where
  "base_subscript xs k = (if k < length xs then Some (xs ! k) else None)"

text \<open>\<^verbatim>\<open>static_cast< std::size_t >(x)\<close> of an \<open>int\<close>, on a 64-bit \<open>size_t\<close>.\<close>

definition size_t_of_int :: "int \<Rightarrow> nat" where
  "size_t_of_int x = nat (x mod 2 ^ 64)"

text \<open>
  \<^verbatim>\<open>operator[](std::size_t i) { return BaseType::operator[](i % N); }\<close>
\<close>

definition subscript_size_t :: "'a list \<Rightarrow> nat \<Rightarrow> 'a option" where
  "subscript_size_t xs i = base_subscript xs (i mod length xs)"

text \<open>
  \<^verbatim>\<open>operator[](int i)\<close>:
  \<^verbatim>\<open>real_index = i < 0 ? static_cast< std::size_t >( N - ( ( (i * -1) % N ) + 1 ) ) : std::size_t(i)\<close>.
  The arithmetic is that of \<open>int\<close>; \<open>%\<close> truncates towards zero (\<open>smod\<close>). The product
  \<open>i * -1\<close> overflows only at the least \<open>int\<close>, where C++ leaves it undefined; the model
  computes it in the integers.
\<close>

definition real_index :: "int \<Rightarrow> int \<Rightarrow> nat" where
  "real_index N i =
     (if i < 0 then size_t_of_int (N - (((i * - 1) smod N) + 1)) else size_t_of_int i)"

definition subscript_int :: "'a list \<Rightarrow> int \<Rightarrow> 'a option" where
  "subscript_int xs i = base_subscript xs (real_index (int (length xs)) i)"

section \<open>LA::EigenDenseMatrix (eigen/dense.hh)\<close>

subsection \<open>The backend and the shared pointers to it\<close>

text \<open>
  \<open>BackendType\<close> is \<^verbatim>\<open>Eigen::Matrix< ScalarType, Dynamic, Dynamic >\<close>: its two dimensions and
  its coefficients, read by \<^verbatim>\<open>operator()(ii, jj)\<close>. \<open>ScalarType\<close> is the template parameter
  \<open>ScalarImp\<close>; it is the type variable \<open>'a\<close>, with exact arithmetic where a theorem needs
  arithmetic (rounding, infinities and NaN of a floating-point \<open>ScalarImp\<close> are not modelled).
  Indices of type \<open>size_t\<close> are natural numbers.
\<close>

record 'a BackendType =
  rows :: nat
  cols :: nat
  coeff :: "nat \<Rightarrow> nat \<Rightarrow> 'a"

text \<open>
  The store of backends owned by \<^verbatim>\<open>std::shared_ptr< BackendType >\<close>: the backend at each
  address, the use count of its control block, and the next address to allocate.
\<close>

record 'a heap =
  cells :: "nat \<rightharpoonup> 'a BackendType"
  use_count :: "nat \<Rightarrow> nat"
  lim :: nat

text \<open>
  A container is its one data member \<^verbatim>\<open>mutable std::shared_ptr< BackendType > backend_\<close>:
  the address it points to. A member function takes \<open>this\<close> and the store, and returns the
  container (whose pointer \<open>ensure_uniqueness\<close> may have changed) and the store; when it
  throws it returns the error and the store as it was at the throw.
\<close>

record EigenDenseMatrix =
  backend :: nat

definition empty_heap :: "'a heap" where
  "empty_heap = \<lparr>cells = Map.empty, use_count = (\<lambda>p. 0), lim = 0\<rparr>"

text \<open>\<^verbatim>\<open>std::make_shared< BackendType >(B)\<close>: a new backend with use count 1.\<close>

definition make_shared :: "'a BackendType \<Rightarrow> 'a heap \<Rightarrow> nat \<times> 'a heap" where
  "make_shared B H =
     (lim H, H\<lparr>cells := (cells H)(lim H \<mapsto> B),
               use_count := (use_count H)(lim H := 1),
               lim := Suc (lim H)\<rparr>)"

text \<open>Copying a \<open>shared_ptr\<close> adds one owner; dropping one removes it and frees the
  backend with the last owner.\<close>

definition acquire :: "nat \<Rightarrow> 'a heap \<Rightarrow> 'a heap" where
  "acquire p H = H\<lparr>use_count := (use_count H)(p := Suc (use_count H p))\<rparr>"

definition release :: "nat \<Rightarrow> 'a heap \<Rightarrow> 'a heap" where
  "release p H =
     (if use_count H p \<le> 1
      then H\<lparr>cells := (cells H)(p := None), use_count := (use_count H)(p := 0)\<rparr>
      else H\<lparr>use_count := (use_count H)(p := use_count H p - 1)\<rparr>)"

subsection \<open>The Eigen operations the container calls\<close>

definition setZero :: "'a::zero BackendType \<Rightarrow> 'a BackendType" where
  "setZero B = B\<lparr>coeff := (\<lambda>i j. 0)\<rparr>"

definition setOnes :: "'a::one BackendType \<Rightarrow> 'a BackendType" where
  "setOnes B = B\<lparr>coeff := (\<lambda>i j. 1)\<rparr>"

text \<open>\<^verbatim>\<open>B *= alpha\<close>\<close>

definition times_assign :: "'a::times BackendType \<Rightarrow> 'a \<Rightarrow> 'a BackendType" where
  "times_assign B alpha = B\<lparr>coeff := (\<lambda>i j. coeff B i j * alpha)\<rparr>"

text \<open>\<^verbatim>\<open>B += alpha * X\<close>\<close>

definition plus_assign_scaled ::
  "'a::{plus,times} BackendType \<Rightarrow> 'a \<Rightarrow> 'a BackendType \<Rightarrow> 'a BackendType" where
  "plus_assign_scaled B alpha X = B\<lparr>coeff := (\<lambda>i j. coeff B i j + alpha * coeff X i j)\<rparr>"

text \<open>\<^verbatim>\<open>B(i, j) = v\<close>; Eigen asserts that the index is inside the matrix.\<close>

definition coeff_write :: "'a BackendType \<Rightarrow> nat \<Rightarrow> nat \<Rightarrow> 'a \<Rightarrow> error + 'a BackendType" where
  "coeff_write B i j v =
     (if i < rows B \<and> j < cols B
      then Inr (B\<lparr>coeff := (coeff B)(i := (coeff B i)(j := v))\<rparr>)
      else Inl assertion_failed)"

subsection \<open>Construction, assignment, copy-on-write\<close>

text \<open>
  \<^verbatim>\<open>EigenDenseMatrix(const size_t rr, const size_t cc, const ScalarType value)\<close>:
  \<^verbatim>\<open>backend_(new BackendType(rr, cc))\<close>, then \<open>setZero\<close> if the value is zero
  (\<^verbatim>\<open>FloatCmp::eq(value, ScalarType(0))\<close>, exact here), otherwise \<open>setOnes\<close> and
  \<^verbatim>\<open>*= value\<close>.
\<close>

definition EigenDenseMatrix_new ::
  "nat \<Rightarrow> nat \<Rightarrow> 'a::{zero,one,times} \<Rightarrow> 'a heap \<Rightarrow> EigenDenseMatrix \<times> 'a heap" where
  "EigenDenseMatrix_new rr cc val H =
     (let B0 = \<lparr>rows = rr, cols = cc, coeff = (\<lambda>i j. 0)\<rparr>;
          B = (if val = 0 then setZero B0 else times_assign (setOnes B0) val);
          (p, H') = make_shared B H
      in (\<lparr>backend = p\<rparr>, H'))"

text \<open>
  \<^verbatim>\<open>ThisType& operator=(const ThisType& other) { backend_ = other.backend_; return *this; }\<close>:
  the pointer of \<open>other\<close> gains an owner, the pointer \<open>this\<close> held loses one.
\<close>

definition assign :: "EigenDenseMatrix \<Rightarrow> EigenDenseMatrix \<Rightarrow> 'a heap \<Rightarrow> EigenDenseMatrix \<times> 'a heap" where
  "assign this other H =
     (this\<lparr>backend := backend other\<rparr>, release (backend this) (acquire (backend other) H))"

text \<open>
  \<^verbatim>\<open>if (!backend_.unique()) backend_ = std::make_shared< BackendType >(*backend_);\<close>
\<close>

definition ensure_uniqueness ::
  "EigenDenseMatrix \<Rightarrow> 'a heap \<Rightarrow> (error + EigenDenseMatrix) \<times> 'a heap" where
  "ensure_uniqueness this H =
     (if use_count H (backend this) \<noteq> 1
      then (case cells H (backend this) of
              None \<Rightarrow> (Inl invalid_backend, H)
            | Some B \<Rightarrow>
                (let (p, H') = make_shared B H
                 in (Inr (this\<lparr>backend := p\<rparr>), release (backend this) H')))
      else (Inr this, H))"

text \<open>
  \<^verbatim>\<open>BackendType& backend() { ensure_uniqueness(); return *backend_; }\<close>: the reference
  returned is the cell the container points to afterwards.
\<close>

definition backend_nonconst ::
  "EigenDenseMatrix \<Rightarrow> 'a heap \<Rightarrow> (error + EigenDenseMatrix) \<times> 'a heap" where
  "backend_nonconst this H = ensure_uniqueness this H"

text \<open>A write through \<^verbatim>\<open>*backend_\<close>: the cell of \<open>this\<close> is replaced by \<open>f\<close> of it.\<close>

definition store ::
  "EigenDenseMatrix \<Rightarrow> ('a BackendType \<Rightarrow> error + 'a BackendType) \<Rightarrow> 'a heap
     \<Rightarrow> (error + EigenDenseMatrix) \<times> 'a heap" where
  "store this f H =
     (case cells H (backend this) of
        None \<Rightarrow> (Inl invalid_backend, H)
      | Some B \<Rightarrow>
          (case f B of
             Inl e \<Rightarrow> (Inl e, H)
           | Inr B' \<Rightarrow> (Inr this, H\<lparr>cells := (cells H)(backend this \<mapsto> B')\<rparr>)))"

subsection \<open>ContainerInterface: scal, axpy\<close>

text \<open>\<^verbatim>\<open>void scal(const ScalarType& alpha) { backend() *= alpha; }\<close>\<close>

definition scal ::
  "EigenDenseMatrix \<Rightarrow> 'a::times \<Rightarrow> 'a heap \<Rightarrow> (error + EigenDenseMatrix) \<times> 'a heap" where
  "scal this alpha H =
     (case backend_nonconst this H of
        (Inl e, H') \<Rightarrow> (Inl e, H')
      | (Inr this', H') \<Rightarrow> store this' (\<lambda>B. Inr (times_assign B alpha)) H')"

text \<open>
  The message of the \<open>shapes_do_not_match\<close> exception of \<open>axpy\<close>:
  \<^verbatim>\<open>"The shape of xx (" << xx.rows() << "x" << xx.cols()
  << ") does not match the shape of this (" << rows() << "x" << cols() << ")!"\<close>
\<close>

definition shape_mismatch_message :: "nat \<Rightarrow> nat \<Rightarrow> nat \<Rightarrow> nat \<Rightarrow> string" where
  "shape_mismatch_message xr xc r c =
     ''The shape of xx ('' @ show_nat xr @ ''x'' @ show_nat xc
       @ '') does not match the shape of this ('' @ show_nat r @ ''x'' @ show_nat c @ '')!''"

text \<open>
  \<^verbatim>\<open>void axpy(const ScalarType& alpha, const ThisType& xx)\<close>: the shape test is
  \<open>has_equal_shape\<close>, \<^verbatim>\<open>(rows() == other.rows()) && (cols() == other.cols())\<close>; then
  \<^verbatim>\<open>const auto& xx_ref = *(xx.backend_); backend() += alpha * xx_ref;\<close>. The reference
  \<open>xx_ref\<close> is taken before \<open>backend()\<close> runs and read when the sum is assigned.
\<close>

definition axpy ::
  "EigenDenseMatrix \<Rightarrow> 'a::{plus,times} \<Rightarrow> EigenDenseMatrix \<Rightarrow> 'a heap
     \<Rightarrow> (error + EigenDenseMatrix) \<times> 'a heap" where
  "axpy this alpha xx H =
     (case (cells H (backend this), cells H (backend xx)) of
        (Some B, Some X) \<Rightarrow>
          if \<not> (rows B = rows X \<and> cols B = cols X)
          then (Inl (shapes_do_not_match
                  (shape_mismatch_message (rows X) (cols X) (rows B) (cols B))), H)
          else (case backend_nonconst this H of
                  (Inl e, H') \<Rightarrow> (Inl e, H')
                | (Inr this', H') \<Rightarrow>
                    (case cells H' (backend xx) of
                       None \<Rightarrow> (Inl invalid_backend, H')
                     | Some X' \<Rightarrow> store this' (\<lambda>B'. Inr (plus_assign_scaled B' alpha X')) H'))
      | _ \<Rightarrow> (Inl invalid_backend, H))"

subsection \<open>MatrixInterface: entries\<close>

text \<open>
  \<^verbatim>\<open>assert(ii < rows()); assert(jj < cols()); backend()(ii, jj) += value;\<close>
\<close>

definition add_to_entry ::
  "EigenDenseMatrix \<Rightarrow> nat \<Rightarrow> nat \<Rightarrow> 'a::plus \<Rightarrow> 'a heap \<Rightarrow> (error + EigenDenseMatrix) \<times> 'a heap" where
  "add_to_entry this ii jj val H =
     (case cells H (backend this) of
        None \<Rightarrow> (Inl invalid_backend, H)
      | Some B \<Rightarrow>
          if \<not> ii < rows B then (Inl assertion_failed, H)
          else if \<not> jj < cols B then (Inl assertion_failed, H)
          else (case backend_nonconst this H of
                  (Inl e, H') \<Rightarrow> (Inl e, H')
                | (Inr this', H') \<Rightarrow>
                    store this' (\<lambda>B'. coeff_write B' ii jj (coeff B' ii jj + val)) H'))"

text \<open>
  \<^verbatim>\<open>assert(ii < rows()); assert(jj < cols()); backend()(ii, jj) = value;\<close>
\<close>

definition set_entry ::
  "EigenDenseMatrix \<Rightarrow> nat \<Rightarrow> nat \<Rightarrow> 'a \<Rightarrow> 'a heap \<Rightarrow> (error + EigenDenseMatrix) \<times> 'a heap" where
  "set_entry this ii jj val H =
     (case cells H (backend this) of
        None \<Rightarrow> (Inl invalid_backend, H)
      | Some B \<Rightarrow>
          if \<not> ii < rows B then (Inl assertion_failed, H)
          else if \<not> jj < cols B then (Inl assertion_failed, H)
          else (case backend_nonconst this H of
                  (Inl e, H') \<Rightarrow> (Inl e, H')
                | (Inr this', H') \<Rightarrow> store this' (\<lambda>B'. coeff_write B' ii jj val) H'))"

text \<open>
  \<^verbatim>\<open>assert(ii < rows()); assert(jj < cols()); return backend_->operator()(ii, jj);\<close>
  (a \<open>const\<close> member: no copy is made).
\<close>

definition get_entry :: "EigenDenseMatrix \<Rightarrow> nat \<Rightarrow> nat \<Rightarrow> 'a heap \<Rightarrow> error + 'a" where
  "get_entry this ii jj H =
     (case cells H (backend this) of
        None \<Rightarrow> Inl invalid_backend
      | Some B \<Rightarrow>
          if \<not> ii < rows B then Inl assertion_failed
          else if \<not> jj < cols B then Inl assertion_failed
          else Inr (coeff B ii jj))"

subsection \<open>MatrixInterface: clearing and unit rows and columns\<close>

text \<open>
  The loops \<^verbatim>\<open>for (size_t jj = 0; jj < cols(); ++jj) backend_->operator()(ii, jj) = ScalarType(0);\<close>
  write one value at a list of positions, in order, and stop at the first failed write.
\<close>

fun store_all ::
  "EigenDenseMatrix \<Rightarrow> (nat \<times> nat) list \<Rightarrow> 'a \<Rightarrow> 'a heap \<Rightarrow> (error + EigenDenseMatrix) \<times> 'a heap" where
  "store_all this [] val H = (Inr this, H)"
| "store_all this ((i, j) # ps) val H =
     (case store this (\<lambda>B. coeff_write B i j val) H of
        (Inl e, H') \<Rightarrow> (Inl e, H')
      | (Inr this', H') \<Rightarrow> store_all this' ps val H')"

text \<open>
  \<^verbatim>\<open>"Given ii (" << ii << ") is larger than the rows of this (" << rows() << ")!"\<close> and
  \<^verbatim>\<open>"Given jj (" << jj << ") is larger than the cols of this (" << cols() << ")!"\<close>
\<close>

definition row_message :: "nat \<Rightarrow> nat \<Rightarrow> string" where
  "row_message ii r =
     ''Given ii ('' @ show_nat ii @ '') is larger than the rows of this ('' @ show_nat r @ '')!''"

definition col_message :: "nat \<Rightarrow> nat \<Rightarrow> string" where
  "col_message jj c =
     ''Given jj ('' @ show_nat jj @ '') is larger than the cols of this ('' @ show_nat c @ '')!''"

text \<open>
  \<^verbatim>\<open>void clear_row(const size_t ii)\<close>: throws \<open>index_out_of_range\<close> if
  \<^verbatim>\<open>ii >= rows()\<close>, then \<open>ensure_uniqueness()\<close>, then the loop over the columns. The
  bound \<open>cols()\<close> the loop reads is that of the backend before \<open>ensure_uniqueness()\<close>:
  a copy has the shape of its original, and no write changes a shape.
\<close>

definition clear_row ::
  "EigenDenseMatrix \<Rightarrow> nat \<Rightarrow> 'a::zero heap \<Rightarrow> (error + EigenDenseMatrix) \<times> 'a heap" where
  "clear_row this ii H =
     (case cells H (backend this) of
        None \<Rightarrow> (Inl invalid_backend, H)
      | Some B \<Rightarrow>
          if ii \<ge> rows B then (Inl (index_out_of_range (row_message ii (rows B))), H)
          else (case ensure_uniqueness this H of
                  (Inl e, H') \<Rightarrow> (Inl e, H')
                | (Inr this', H') \<Rightarrow>
                    store_all this' (map (\<lambda>jj. (ii, jj)) [0 ..< cols B]) 0 H'))"

definition clear_col ::
  "EigenDenseMatrix \<Rightarrow> nat \<Rightarrow> 'a::zero heap \<Rightarrow> (error + EigenDenseMatrix) \<times> 'a heap" where
  "clear_col this jj H =
     (case cells H (backend this) of
        None \<Rightarrow> (Inl invalid_backend, H)
      | Some B \<Rightarrow>
          if jj \<ge> cols B then (Inl (index_out_of_range (col_message jj (cols B))), H)
          else (case ensure_uniqueness this H of
                  (Inl e, H') \<Rightarrow> (Inl e, H')
                | (Inr this', H') \<Rightarrow>
                    store_all this' (map (\<lambda>ii. (ii, jj)) [0 ..< rows B]) 0 H'))"

text \<open>
  \<^verbatim>\<open>void unit_row(const size_t ii)\<close>: as \<open>clear_row\<close>, then
  \<^verbatim>\<open>backend_->operator()(ii, ii) = ScalarType(1);\<close>
\<close>

definition unit_row ::
  "EigenDenseMatrix \<Rightarrow> nat \<Rightarrow> 'a::{zero,one} heap \<Rightarrow> (error + EigenDenseMatrix) \<times> 'a heap" where
  "unit_row this ii H =
     (case cells H (backend this) of
        None \<Rightarrow> (Inl invalid_backend, H)
      | Some B \<Rightarrow>
          if ii \<ge> rows B then (Inl (index_out_of_range (row_message ii (rows B))), H)
          else (case ensure_uniqueness this H of
                  (Inl e, H') \<Rightarrow> (Inl e, H')
                | (Inr this', H') \<Rightarrow>
                    (case store_all this' (map (\<lambda>jj. (ii, jj)) [0 ..< cols B]) 0 H' of
                       (Inl e, H'') \<Rightarrow> (Inl e, H'')
                     | (Inr this'', H'') \<Rightarrow>
                         store this'' (\<lambda>B'. coeff_write B' ii ii 1) H'')))"

definition unit_col ::
  "EigenDenseMatrix \<Rightarrow> nat \<Rightarrow> 'a::{zero,one} heap \<Rightarrow> (error + EigenDenseMatrix) \<times> 'a heap" where
  "unit_col this jj H =
     (case cells H (backend this) of
        None \<Rightarrow> (Inl invalid_backend, H)
      | Some B \<Rightarrow>
          if jj \<ge> cols B then (Inl (index_out_of_range (col_message jj (cols B))), H)
          else (case ensure_uniqueness this H of
                  (Inl e, H') \<Rightarrow> (Inl e, H')
                | (Inr this', H') \<Rightarrow>
                    (case store_all this' (map (\<lambda>ii. (ii, jj)) [0 ..< rows B]) 0 H' of
                       (Inl e, H'') \<Rightarrow> (Inl e, H'')
                     | (Inr this'', H'') \<Rightarrow>
                         store this'' (\<lambda>B'. coeff_write B' jj jj 1) H'')))"

subsection \<open>Programs of mutations on two containers\<close>

text \<open>
  The three mutating calls a statement about "any mutation" ranges over, and a program that
  applies a list of them, each to the first container (\<open>True\<close>) or to the second
  (\<open>False\<close>); an exception ends the program.
\<close>

datatype 'a mutation = Set_entry nat nat 'a | Add_to_entry nat nat 'a | Scal 'a

fun mutate ::
  "'a::{plus,times} mutation \<Rightarrow> EigenDenseMatrix \<Rightarrow> 'a heap
     \<Rightarrow> (error + EigenDenseMatrix) \<times> 'a heap" where
  "mutate (Set_entry ii jj val) this H = set_entry this ii jj val H"
| "mutate (Add_to_entry ii jj val) this H = add_to_entry this ii jj val H"
| "mutate (Scal alpha) this H = scal this alpha H"

fun run ::
  "(bool \<times> 'a::{plus,times} mutation) list \<Rightarrow> EigenDenseMatrix \<Rightarrow> EigenDenseMatrix \<Rightarrow> 'a heap
     \<Rightarrow> (error + EigenDenseMatrix \<times> EigenDenseMatrix) \<times> 'a heap" where
  "run [] a b H = (Inr (a, b), H)"
| "run ((on_a, m) # ms) a b H =
     (if on_a
      then (case mutate m a H of
              (Inl e, H') \<Rightarrow> (Inl e, H')
            | (Inr a', H') \<Rightarrow> run ms a' b H')
      else (case mutate m b H of
              (Inl e, H') \<Rightarrow> (Inl e, H')
            | (Inr b', H') \<Rightarrow> run ms a b' H'))"

text \<open>
  What a mutation does to the matrix it is applied to, and when its assertions hold; used
  to state what a program leaves in each container.
\<close>

fun mutation_effect :: "'a::{plus,times} mutation \<Rightarrow> 'a BackendType \<Rightarrow> 'a BackendType" where
  "mutation_effect (Set_entry ii jj val) B = B\<lparr>coeff := (coeff B)(ii := (coeff B ii)(jj := val))\<rparr>"
| "mutation_effect (Add_to_entry ii jj val) B =
     B\<lparr>coeff := (coeff B)(ii := (coeff B ii)(jj := coeff B ii jj + val))\<rparr>"
| "mutation_effect (Scal alpha) B = B\<lparr>coeff := (\<lambda>i j. coeff B i j * alpha)\<rparr>"

fun mutation_ok :: "'a mutation \<Rightarrow> 'a BackendType \<Rightarrow> bool" where
  "mutation_ok (Set_entry ii jj val) B = (ii < rows B \<and> jj < cols B)"
| "mutation_ok (Add_to_entry ii jj val) B = (ii < rows B \<and> jj < cols B)"
| "mutation_ok (Scal alpha) B = True"

text \<open>The shape shared by the mutating members: \<open>backend()\<close>, then one write.\<close>

definition cow_store ::
  "EigenDenseMatrix \<Rightarrow> ('a BackendType \<Rightarrow> error + 'a BackendType) \<Rightarrow> 'a heap
     \<Rightarrow> (error + EigenDenseMatrix) \<times> 'a heap" where
  "cow_store x f H =
     (case ensure_uniqueness x H of
        (Inl e, H') \<Rightarrow> (Inl e, H')
      | (Inr this', H') \<Rightarrow> store this' f H')"

text \<open>
  The store is consistent for a list of live containers (distinct objects, which may hold
  the same pointer) when each points below the allocation limit to an existing backend whose
  use count is at least the number of containers of the list that point to it. Other owners
  of a backend (a \<open>shared_ptr\<close> handed to a constructor) only raise the count.
\<close>

definition consistent :: "'a heap \<Rightarrow> EigenDenseMatrix list \<Rightarrow> bool" where
  "consistent H cs =
     (\<forall>c \<in> set cs. cells H (backend c) \<noteq> None \<and> backend c < lim H
        \<and> count_list (map backend cs) (backend c) \<le> use_count H (backend c))"

text \<open>Stores built by the constructor, for the examples.\<close>

definition two_by_two :: "int heap" where
  "two_by_two = snd (EigenDenseMatrix_new 2 2 7 (snd (EigenDenseMatrix_new 2 2 0 empty_heap)))"

definition three_matrices :: "int heap" where
  "three_matrices = snd (EigenDenseMatrix_new 3 2 1 two_by_two)"

definition example_program :: "(bool \<times> int mutation) list" where
  "example_program = [(False, Set_entry 0 1 5), (True, Scal 3), (False, Add_to_entry 0 1 1)]"

subsection \<open>A scalar with infinities and NaN\<close>

text \<open>
  The default \<open>ScalarImp\<close> is \<open>double\<close>. Of its arithmetic this scalar keeps what exact
  numbers do not have: the two infinities (\<open>Infinity True\<close> is the negative one) and NaN,
  with the sums and products IEEE 754 gives them; a product of zero and an infinity is NaN.
  Finite values are rational numbers and their arithmetic is exact (rounding, overflow and
  the sign of zero are not modelled).
\<close>

datatype ieee = Finite rat | Infinity bool | NaN

instantiation ieee :: "{zero,one,plus,times}"
begin

definition zero_ieee :: ieee where
  "zero_ieee = Finite 0"

definition one_ieee :: ieee where
  "one_ieee = Finite 1"

fun plus_ieee :: "ieee \<Rightarrow> ieee \<Rightarrow> ieee" where
  "plus_ieee NaN y = NaN"
| "plus_ieee x NaN = NaN"
| "plus_ieee (Finite x) (Finite y) = Finite (x + y)"
| "plus_ieee (Finite x) (Infinity t) = Infinity t"
| "plus_ieee (Infinity s) (Finite y) = Infinity s"
| "plus_ieee (Infinity s) (Infinity t) = (if s = t then Infinity s else NaN)"

fun times_ieee :: "ieee \<Rightarrow> ieee \<Rightarrow> ieee" where
  "times_ieee NaN y = NaN"
| "times_ieee x NaN = NaN"
| "times_ieee (Finite x) (Finite y) = Finite (x * y)"
| "times_ieee (Finite x) (Infinity t) = (if x = 0 then NaN else Infinity (t \<noteq> (x < 0)))"
| "times_ieee (Infinity s) (Finite y) = (if y = 0 then NaN else Infinity (s \<noteq> (y < 0)))"
| "times_ieee (Infinity s) (Infinity t) = Infinity (s \<noteq> t)"

instance ..

end

fun is_finite :: "ieee \<Rightarrow> bool" where
  "is_finite (Finite x) = True"
| "is_finite (Infinity s) = False"
| "is_finite NaN = False"

text \<open>Three 2 x 2 matrices built by the constructor: of sevens, of threes, of infinities.\<close>

definition ieee_matrices :: "ieee heap" where
  "ieee_matrices =
     snd (EigenDenseMatrix_new 2 2 (Infinity False)
       (snd (EigenDenseMatrix_new 2 2 (Finite 3)
         (snd (EigenDenseMatrix_new 2 2 (Finite 7) empty_heap)))))"

section \<open>LA::SparsityPatternDefault and createCompressedSparsityPattern (pattern.hh)\<close>

text \<open>
  \<^verbatim>\<open>std::vector< std::set< unsigned int > > vectorOfSets_\<close>: one finite set of column
  indices per row. The constructor makes \<open>_size\<close> empty sets; \<open>set(_index)\<close> asserts
  \<^verbatim>\<open>_index < size()\<close>.
\<close>

type_synonym SparsityPatternDefault = "nat fset list"

definition SparsityPatternDefault_new :: "nat \<Rightarrow> SparsityPatternDefault" where
  "SparsityPatternDefault_new n = replicate n {||}"

definition pattern_size :: "SparsityPatternDefault \<Rightarrow> nat" where
  "pattern_size p = length p"

definition pattern_set :: "SparsityPatternDefault \<Rightarrow> nat \<Rightarrow> error + nat fset" where
  "pattern_set p index = (if index < pattern_size p then Inr (p ! index) else Inl assertion_failed)"

text \<open>
  The inner loop \<^verbatim>\<open>for (auto col : uncompressedRowSet)\<close>, in the ascending order of a
  \<open>std::set\<close>: \<^verbatim>\<open>absValue = std::abs(matrix.get(row, col)); if (absValue > threshhold)
  compressedRowSet.insert(col);\<close>. The matrix is the function \<open>matrix.get\<close> of the
  \<open>MatrixInterface\<close> argument; its elements are an ordered ring.
\<close>

definition compress_row ::
  "(nat \<Rightarrow> 'e::linordered_idom) \<Rightarrow> 'e \<Rightarrow> nat fset \<Rightarrow> nat fset \<Rightarrow> nat fset" where
  "compress_row get_row threshhold uncompressedRowSet compressedRowSet =
     fold (\<lambda>col acc. if \<bar>get_row col\<bar> > threshhold then finsert col acc else acc)
       (sorted_list_of_fset uncompressedRowSet) compressedRowSet"

text \<open>The outer loop over the rows \<^verbatim>\<open>row = 0, ..., uncompressedPattern.size() - 1\<close>.\<close>

fun compress_rows ::
  "nat list \<Rightarrow> SparsityPatternDefault \<Rightarrow> (nat \<Rightarrow> nat \<Rightarrow> 'e::linordered_idom) \<Rightarrow> 'e
     \<Rightarrow> SparsityPatternDefault \<Rightarrow> error + SparsityPatternDefault" where
  "compress_rows [] uncompressedPattern matrix_get threshhold compressedPattern = Inr compressedPattern"
| "compress_rows (row # rest) uncompressedPattern matrix_get threshhold compressedPattern =
     (case pattern_set uncompressedPattern row of
        Inl e \<Rightarrow> Inl e
      | Inr uncompressedRowSet \<Rightarrow>
          (case pattern_set compressedPattern row of
             Inl e \<Rightarrow> Inl e
           | Inr compressedRowSet \<Rightarrow>
               compress_rows rest uncompressedPattern matrix_get threshhold
                 (compressedPattern[row :=
                    compress_row (matrix_get row) threshhold uncompressedRowSet compressedRowSet])))"

text \<open>
  \<^verbatim>\<open>assert(!(threshhold < typename T::ElementType(0)) && "Please provide a nonnegative threshhold!");\<close>
  then a new pattern of the same size is filled by the loops.
\<close>

definition createCompressedSparsityPattern ::
  "SparsityPatternDefault \<Rightarrow> (nat \<Rightarrow> nat \<Rightarrow> 'e::linordered_idom) \<Rightarrow> 'e
     \<Rightarrow> error + SparsityPatternDefault" where
  "createCompressedSparsityPattern uncompressedPattern matrix_get threshhold =
     (if threshhold < 0 then Inl assertion_failed
      else compress_rows [0 ..< pattern_size uncompressedPattern] uncompressedPattern matrix_get
             threshhold (SparsityPatternDefault_new (pattern_size uncompressedPattern)))"

section \<open>Stuff::readSparseMatrix (stuff/matrix.hh)\<close>

text \<open>
  \<^verbatim>\<open>row.find_first_of(",", pos)\<close>: the first position from \<open>pos\<close> on that holds the
  character, \<open>None\<close> for \<^verbatim>\<open>std::string::npos\<close>.
\<close>

primrec find_char :: "char \<Rightarrow> string \<Rightarrow> nat option" where
  "find_char c [] = None"
| "find_char c (x # xs) = (if x = c then Some 0 else map_option Suc (find_char c xs))"

definition find_first_of :: "string \<Rightarrow> char \<Rightarrow> nat \<Rightarrow> nat option" where
  "find_first_of row c pos = map_option (\<lambda>i. pos + i) (find_char c (drop pos row))"

text \<open>The difference of two \<open>size_t\<close> values (64 bits), which wraps around below zero.\<close>

definition size_t_minus :: "nat \<Rightarrow> nat \<Rightarrow> nat" where
  "size_t_minus a b = (if b \<le> a then a - b else a + 2 ^ 64 - b)"

text \<open>\<^verbatim>\<open>row.substr(pos, len)\<close>, which throws when \<open>pos\<close> is beyond the end.\<close>

definition substr :: "string \<Rightarrow> nat \<Rightarrow> nat \<Rightarrow> string option" where
  "substr row pos len = (if pos > length row then None else Some (take len (drop pos row)))"

text \<open>
  The \<^verbatim>\<open>do { ... } while (last_found != row.size()+1)\<close> loop of one line. Its state is
  \<open>last_found\<close>, \<open>found\<close>, \<open>temp\<close> and \<open>entryLine\<close>. The stream extraction
  \<^verbatim>\<open>in >> temp\<close> is the parameter \<open>extract\<close>: from the stream's setting (scientific when
  \<^verbatim>\<open>entryLine.size()==2\<close>), the token and the old value of \<open>temp\<close> to its new value.
  \<open>loop_measure\<close> bounds the remaining iterations.
\<close>

definition loop_measure :: "string \<Rightarrow> nat \<Rightarrow> nat option \<Rightarrow> nat" where
  "loop_measure row last_found found =
     (if last_found > length row then 0
      else if (case found of None \<Rightarrow> True | Some f \<Rightarrow> last_found \<le> f \<and> f < length row)
      then length row + 1 - last_found
      else length row + 2)"

function token_loop ::
  "(bool \<Rightarrow> string \<Rightarrow> 'v \<Rightarrow> 'v) \<Rightarrow> string \<Rightarrow> nat \<Rightarrow> nat option \<Rightarrow> 'v \<Rightarrow> 'v list
     \<Rightarrow> error + 'v list" where
  "token_loop extract row last_found found temp entryLine =
     (let found1 = (case found of None \<Rightarrow> length row | Some f \<Rightarrow> f) in
      case substr row last_found (size_t_minus found1 last_found) of
        None \<Rightarrow> Inl std_out_of_range
      | Some subs \<Rightarrow>
          (let last_found' = found1 + 1;
               temp' = extract (length entryLine = 2) subs temp;
               entryLine' = entryLine @ [temp'];
               found' = find_first_of row CHR '','' last_found'
           in if last_found' \<noteq> length row + 1
              then token_loop extract row last_found' found' temp' entryLine'
              else Inr entryLine'))"
  by pat_completeness auto
termination
proof -
  have fc: "find_char c xs = Some i \<Longrightarrow> i < length xs" for c :: char and xs i
    by (induction xs arbitrary: i) (auto split: if_splits)
  have fb: "find_first_of row c pos = Some f \<Longrightarrow> pos \<le> f \<and> f < length row" for row c pos f
    by (auto simp: find_first_of_def dest!: fc)
  show ?thesis
    by (relation "measure (\<lambda>(extract, row, last_found, found, temp, entryLine).
          loop_measure row last_found found)")
      (auto simp: loop_measure_def substr_def split: option.splits if_splits dest: fb)
qed

declare token_loop.simps [simp del]

text \<open>
  \<^verbatim>\<open>while (std::getline(in, row))\<close> over the lines of the input: the first comma is
  looked for, \<open>temp\<close> starts uninitialised, the tokens are read,
  \<^verbatim>\<open>assert(entryLine.size()==3)\<close>, and
  \<^verbatim>\<open>matrix.add(entryLine[0],entryLine[1],entryLine[2])\<close>. The matrix type is the template
  parameter \<open>SparseMatrixImpl\<close>; its \<open>clear\<close> and \<open>add\<close> are parameters.
\<close>

fun read_lines ::
  "(bool \<Rightarrow> string \<Rightarrow> 'v \<Rightarrow> 'v) \<Rightarrow> 'v \<Rightarrow> ('m \<Rightarrow> 'v \<Rightarrow> 'v \<Rightarrow> 'v \<Rightarrow> 'm) \<Rightarrow> string list \<Rightarrow> 'm
     \<Rightarrow> error + 'm" where
  "read_lines extract uninit add [] matrix = Inr matrix"
| "read_lines extract uninit add (row # rest) matrix =
     (case token_loop extract row 0 (find_first_of row CHR '','' 0) uninit [] of
        Inl e \<Rightarrow> Inl e
      | Inr entryLine \<Rightarrow>
          if length entryLine \<noteq> 3 then Inl assertion_failed
          else read_lines extract uninit add rest
                 (add matrix (entryLine ! 0) (entryLine ! 1) (entryLine ! 2)))"

definition readSparseMatrix ::
  "('m \<Rightarrow> 'm) \<Rightarrow> ('m \<Rightarrow> 'v \<Rightarrow> 'v \<Rightarrow> 'v \<Rightarrow> 'm) \<Rightarrow> (bool \<Rightarrow> string \<Rightarrow> 'v \<Rightarrow> 'v) \<Rightarrow> 'v
     \<Rightarrow> 'm \<Rightarrow> string list \<Rightarrow> error + 'm" where
  "readSparseMatrix clear add extract uninit matrix input =
     read_lines extract uninit add input (clear matrix)"

text \<open>
  For the examples: a matrix that records the entries added to it, and an extraction that
  reads the leading decimal digits of a token and leaves \<open>temp\<close> as it is when there are
  none.
\<close>

primrec read_digits :: "nat option \<Rightarrow> string \<Rightarrow> nat option" where
  "read_digits acc [] = acc"
| "read_digits acc (c # cs) =
     (case find_char c ''0123456789'' of
        None \<Rightarrow> acc
      | Some d \<Rightarrow> read_digits (Some (10 * (case acc of None \<Rightarrow> 0 | Some n \<Rightarrow> n) + d)) cs)"

definition extract_digits :: "bool \<Rightarrow> string \<Rightarrow> nat \<Rightarrow> nat" where
  "extract_digits scientific subs temp =
     (case read_digits None subs of None \<Rightarrow> temp | Some n \<Rightarrow> n)"

definition triples_clear :: "(nat \<times> nat \<times> nat) list \<Rightarrow> (nat \<times> nat \<times> nat) list" where
  "triples_clear matrix = []"

definition triples_add ::
  "(nat \<times> nat \<times> nat) list \<Rightarrow> nat \<Rightarrow> nat \<Rightarrow> nat \<Rightarrow> (nat \<times> nat \<times> nat) list" where
  "triples_add matrix row col val = matrix @ [(row, col, val)]"

section \<open>Common::ExtendedParameterTree (common/parameter/tree.hh)\<close>

text \<open>
  The members \<open>values\<close> and \<open>subs\<close> that \<open>reportAsSub\<close> iterates over: the entries of
  the tree, key and stored string, and its named sub-trees, each in the order of the
  \<open>std::map\<close>.
\<close>

datatype ParameterTree =
  ParameterTree (tree_values: "(string \<times> string) list")
    (tree_subs: "(string \<times> ParameterTree) list")

text \<open>A key is split at its first dot into the name of a sub-tree and a key of that tree.\<close>

primrec split_dot :: "string \<Rightarrow> (string \<times> string) option" where
  "split_dot [] = None"
| "split_dot (c # cs) =
     (if c = CHR ''.'' then Some ([], cs)
      else map_option (\<lambda>p. (c # fst p, snd p)) (split_dot cs))"

text \<open>
  Modelled from the spec: the base class \<^verbatim>\<open>Dune::ParameterTree\<close> of dune-common, which is
  not part of the sources; the spec calls it "a hierarchical string-keyed tree supporting
  typed get(key, default) [...] and get(key) that fails hard (raises a range error) when the
  key is absent". \<open>lookup\<close> resolves a key to the string stored for it, through the
  sub-trees for a dotted key (the paths \<open>reportAsSub\<close> prints); \<open>BaseType_hasKey\<close> is
  \<^verbatim>\<open>BaseType::hasKey\<close>, \<open>BaseType_get_default\<close> is \<^verbatim>\<open>BaseType::get< T >(key, defaultValue)\<close>
  and \<open>BaseType_get\<close> is \<^verbatim>\<open>BaseType::get< T >(key)\<close>. The conversion of the stored string
  to the type \<open>T\<close> is the parameter \<open>conv\<close>.
\<close>

function lookup :: "ParameterTree \<Rightarrow> string \<Rightarrow> string option" where
  "lookup t key =
     (case split_dot key of
        None \<Rightarrow> map_of (tree_values t) key
      | Some (name, rest) \<Rightarrow>
          (case map_of (tree_subs t) name of
             None \<Rightarrow> None
           | Some s \<Rightarrow> lookup s rest))"
  by pat_completeness auto
termination
proof -
  have shorter: "split_dot key = Some (name, rest) \<Longrightarrow> length rest < length key"
    for key name rest
    by (induction key arbitrary: name rest) (auto split: if_splits)
  show ?thesis
    by (relation "measure (\<lambda>(t, key). length key)") (auto dest: shorter)
qed

declare lookup.simps [simp del]

definition BaseType_hasKey :: "ParameterTree \<Rightarrow> string \<Rightarrow> bool" where
  "BaseType_hasKey t key = (lookup t key \<noteq> None)"

definition BaseType_get_default :: "(string \<Rightarrow> 'T) \<Rightarrow> ParameterTree \<Rightarrow> string \<Rightarrow> 'T \<Rightarrow> 'T" where
  "BaseType_get_default conv t key defaultValue =
     (case lookup t key of None \<Rightarrow> defaultValue | Some s \<Rightarrow> conv s)"

definition BaseType_get :: "(string \<Rightarrow> 'T) \<Rightarrow> ParameterTree \<Rightarrow> string \<Rightarrow> error + 'T" where
  "BaseType_get conv t key =
     (case lookup t key of
        None \<Rightarrow> Inl (RangeError (''Key '' @ key @ '' not found''))
      | Some s \<Rightarrow> Inr (conv s))"

text \<open>\<^verbatim>\<open>std::endl\<close>, as the character it writes.\<close>

definition endl :: string where
  "endl = [CHR 0x0A]"

text \<open>
  \<^verbatim>\<open>void reportAsSub(std::ostream& stream, const std::string& prefix, const std::string& subPath)\<close>,
  as the text it writes: a line \<^verbatim>\<open>prefix << pair.first << " = " << pair.second\<close> for each
  value, then for each sub-tree a heading \<^verbatim>\<open>prefix << "[ " << subPath << pair.first << " ]"\<close>
  if it has values, and its own report under \<^verbatim>\<open>subPath + pair.first + "."\<close>.
\<close>

fun reportAsSub :: "ParameterTree \<Rightarrow> string \<Rightarrow> string \<Rightarrow> string" where
  "reportAsSub (ParameterTree vs ss) prefix_str subPath =
     concat (map (\<lambda>pair. prefix_str @ fst pair @ '' = '' @ snd pair @ endl) vs)
     @ concat (map (\<lambda>pair.
          (if length (tree_values (snd pair)) \<noteq> 0
           then prefix_str @ ''[ '' @ subPath @ fst pair @ '' ]'' @ endl else [])
          @ reportAsSub (snd pair) prefix_str (subPath @ fst pair @ ''.'')) ss)"

definition reportString :: "ParameterTree \<Rightarrow> string \<Rightarrow> string" where
  "reportString t prefix_str = reportAsSub t prefix_str []"

text \<open>
  The message of \<open>get\<close> without a default:
  \<^verbatim>\<open>"\nERROR: key '" << _key << "' missing  in the following Dune::ParameterTree:\n" << reportString("  ")\<close>
\<close>

definition missing_key_message :: "ParameterTree \<Rightarrow> string \<Rightarrow> string" where
  "missing_key_message t key =
     endl @ ''ERROR: key '' @ [CHR 0x27] @ key @ [CHR 0x27]
       @ '' missing  in the following Dune::ParameterTree:'' @ endl @ reportString t ''  ''"

text \<open>
  The line \<open>get\<close> with a default writes to \<^verbatim>\<open>std::cout\<close>:
  \<^verbatim>\<open>highlightString("WARNING:", 9) << " missing key '" << _key << "' is replaced by given default value!" << std::endl\<close>.
  \<open>highlightString\<close> is declared in color.hh, which is not part of the sources; it is a
  parameter.
\<close>

definition warning_message :: "(string \<Rightarrow> nat \<Rightarrow> string) \<Rightarrow> string \<Rightarrow> string" where
  "warning_message highlightString key =
     highlightString ''WARNING:'' 9 @ '' missing key '' @ [CHR 0x27] @ key @ [CHR 0x27]
       @ '' is replaced by given default value!'' @ endl"

text \<open>
  \<^verbatim>\<open>template< typename T > T get(const std::string& _key, const T& defaultValue) const\<close>:
  the value returned and what has been written to \<^verbatim>\<open>std::cout\<close>.
\<close>

definition get_default ::
  "(string \<Rightarrow> nat \<Rightarrow> string) \<Rightarrow> (string \<Rightarrow> 'T) \<Rightarrow> ParameterTree \<Rightarrow> string \<Rightarrow> 'T \<Rightarrow> string
     \<Rightarrow> 'T \<times> string" where
  "get_default highlightString conv t key defaultValue cout =
     (BaseType_get_default conv t key defaultValue,
      if \<not> BaseType_hasKey t key then cout @ warning_message highlightString key else cout)"

text \<open>
  \<^verbatim>\<open>template< class T > T get(const std::string& _key) const\<close>:
  \<^verbatim>\<open>if (!BaseType::hasKey(_key)) DUNE_THROW(Dune::RangeError, ...); return BaseType::get< T >(_key);\<close>
\<close>

definition get :: "(string \<Rightarrow> 'T) \<Rightarrow> ParameterTree \<Rightarrow> string \<Rightarrow> error + 'T" where
  "get conv t key =
     (if \<not> BaseType_hasKey t key then Inl (RangeError (missing_key_message t key))
      else BaseType_get conv t key)"

text \<open>For the examples: a tree with one value and one sub-tree, and no highlighting.\<close>

definition no_highlight :: "string \<Rightarrow> nat \<Rightarrow> string" where
  "no_highlight str colour = str"

definition example_tree :: ParameterTree where
  "example_tree =
     ParameterTree [(''visualize'', ''true'')]
       [(''grid'', ParameterTree [(''cells'', ''16'')] [])]"

section \<open>Stuff::writeSparseMatrix and the text it exchanges with readSparseMatrix (stuff/matrix.hh)\<close>

subsection \<open>A double in scientific notation\<close>










subsection \<open>Reading a decimal\<close>

text \<open>
  The extraction \<^verbatim>\<open>in >> temp\<close> of a \<open>double\<close> from a token: an optional sign, digits,
  an optional point and digits, an optional exponent; the value of the decimal (its rounding
  to the nearest \<open>double\<close> is not modelled). Without a digit the extraction fails and
  \<open>temp\<close> keeps its value.
\<close>

definition is_digit :: "char \<Rightarrow> bool" where
  "is_digit c = (c \<in> set ''0123456789'')"

definition digit_value :: "char \<Rightarrow> nat" where
  "digit_value c = (case find_char c ''0123456789'' of None \<Rightarrow> 0 | Some d \<Rightarrow> d)"

definition digits_value :: "string \<Rightarrow> nat" where
  "digits_value ds = foldl (\<lambda>n c. 10 * n + digit_value c) 0 ds"



subsection \<open>writeSparseMatrix\<close>













section \<open>Properties of wraparound_array\<close>

lemma real_index_nonneg: "0 \<le> i \<Longrightarrow> i < 2 ^ 64 \<Longrightarrow> real_index N i = nat i"
  by (simp add: real_index_def size_t_of_int_def)

lemma real_index_neg:
  assumes "i < 0" and "0 < N" and "N < 2 ^ 64"
  shows "real_index N i = nat (N - 1 - ((- i) mod N))"
proof -
  have s: "(i * - 1) smod N = (- i) mod N"
    using assms by (simp add: signed_modulo_int_def sgn_if abs_if)
  have lo: "0 \<le> (- i) mod N" and hi: "(- i) mod N < N"
    using assms by simp_all
  have "(N - ((- i) mod N + 1)) mod 2 ^ 64 = N - ((- i) mod N + 1)"
    using lo hi assms by (intro mod_pos_pos_trivial) linarith+
  then show ?thesis
    using s by (simp add: real_index_def size_t_of_int_def assms(1) algebra_simps)
qed

text \<open>
  C9. The claim: on a \<open>wraparound_array\<close> of size \<open>N\<close> every non-negative index \<open>i\<close> reads
  position \<open>i mod N\<close>, every negative \<open>int\<close> index \<open>i\<close> reads position
  \<open>((i mod N) + N) mod N\<close>, so that for \<open>N = 4\<close> index \<open>4\<close> aliases index \<open>0\<close> and index \<open>-1\<close>
  aliases index \<open>3\<close>, and no \<open>int\<close> index reads out of bounds. The code at \<open>N = 4\<close>: the
  \<open>int\<close> subscript \<open>4\<close> reads outside the array although the \<open>size_t\<close> subscript \<open>4\<close> reads
  element \<open>0\<close>, and the \<open>int\<close> subscript \<open>-1\<close> reads element \<open>2\<close>, not element \<open>3\<close>.
\<close>

theorem wraparound_array_int_subscript_diverges:
  "subscript_int [10, 11, 12, 13 :: nat] 4 = None
   \<and> subscript_size_t [10, 11, 12, 13 :: nat] 4 = Some 10
   \<and> subscript_int [10, 11, 12, 13 :: nat] (- 1) = Some 12
   \<and> subscript_int [10, 11, 12, 13 :: nat] 3 = Some 13"
  by (simp add: subscript_int_def subscript_size_t_def base_subscript_def real_index_def
      size_t_of_int_def signed_modulo_int_def)

section \<open>Properties of EigenDenseMatrix\<close>

subsection \<open>Consistency of the store and copy-on-write\<close>

lemma consistent_single:
  "consistent H [x] \<longleftrightarrow> cells H (backend x) \<noteq> None \<and> backend x < lim H \<and> 1 \<le> use_count H (backend x)"
  by (auto simp: consistent_def)

lemma consistent_pair:
  "consistent H [x, y] \<longleftrightarrow>
     cells H (backend x) \<noteq> None \<and> backend x < lim H
     \<and> cells H (backend y) \<noteq> None \<and> backend y < lim H
     \<and> (if backend x = backend y then 2 \<le> use_count H (backend x)
         else 1 \<le> use_count H (backend x) \<and> 1 \<le> use_count H (backend y))"
  by (auto simp: consistent_def)

lemma consistent_swap: "consistent H [x, y] \<longleftrightarrow> consistent H [y, x]"
  by (auto simp: consistent_pair)

lemma consistent_pair_single: "consistent H [x, y] \<Longrightarrow> consistent H [x]"
  by (auto simp: consistent_pair consistent_single split: if_splits)

text \<open>The constructor keeps the store consistent and adds the new container to it.\<close>

lemma consistent_empty: "consistent empty_heap []"
  by (simp add: consistent_def)

lemma count_list_fresh:
  "\<forall>c \<in> set cs. backend c < n \<Longrightarrow> count_list (map backend cs) n = 0"
  by (induction cs) auto

lemma EigenDenseMatrix_new_consistent:
  assumes "consistent H cs" and "EigenDenseMatrix_new rr cc val H = (m, H')"
  shows "consistent H' (m # cs) \<and> backend m = lim H
      \<and> get_entry m ii jj H' =
           (if \<not> ii < rr then Inl assertion_failed
            else if \<not> jj < cc then Inl assertion_failed else Inr (if val = 0 then 0 else 1 * val))"
proof -
  have f: "count_list (map backend cs) (lim H) = 0"
    using assms(1) by (intro count_list_fresh) (simp add: consistent_def)
  have m: "m = \<lparr>backend = lim H\<rparr>"
    using assms(2) by (auto simp: EigenDenseMatrix_new_def make_shared_def Let_def)
  show ?thesis
    using assms f
    by (auto simp: EigenDenseMatrix_new_def make_shared_def Let_def consistent_def get_entry_def
        setZero_def setOnes_def times_assign_def less_Suc_eq)
qed

lemma ensure_uniqueness_unique:
  "use_count H (backend x) = 1 \<Longrightarrow> ensure_uniqueness x H = (Inr x, H)"
  by (simp add: ensure_uniqueness_def)

lemma ensure_uniqueness_shared:
  assumes "use_count H (backend x) \<noteq> 1" and "1 \<le> use_count H (backend x)"
    and "cells H (backend x) = Some B" and "backend x < lim H"
  shows "ensure_uniqueness x H =
     (Inr (x\<lparr>backend := lim H\<rparr>),
      H\<lparr>cells := (cells H)(lim H \<mapsto> B),
        use_count := (use_count H)(lim H := 1, backend x := use_count H (backend x) - 1),
        lim := Suc (lim H)\<rparr>)"
  using assms by (simp add: ensure_uniqueness_def make_shared_def release_def)

lemma ensure_uniqueness_pair:
  assumes "consistent H [x, y]"
  shows "\<exists>x' H'. ensure_uniqueness x H = (Inr x', H')
      \<and> consistent H' [x', y]
      \<and> use_count H' (backend x') = 1
      \<and> backend x' \<noteq> backend y
      \<and> cells H' (backend x') = cells H (backend x)
      \<and> cells H' (backend y) = cells H (backend y)"
proof (cases "use_count H (backend x) = 1")
  case True
  then show ?thesis
    using assms by (auto simp: ensure_uniqueness_unique consistent_pair split: if_splits)
next
  case False
  from assms obtain B where B: "cells H (backend x) = Some B"
    by (auto simp: consistent_pair)
  have "1 \<le> use_count H (backend x)" "backend x < lim H"
    using assms by (auto simp: consistent_pair split: if_splits)
  from ensure_uniqueness_shared [OF False this(1) B this(2)] show ?thesis
    using assms False B by (auto simp: consistent_pair split: if_splits)
qed


lemma cow_store_pair:
  assumes wf: "consistent H [x, y]" and B: "cells H (backend x) = Some B" and f: "f B = Inr B'"
  shows "\<exists>x' H'. cow_store x f H = (Inr x', H')
      \<and> consistent H' [x', y]
      \<and> use_count H' (backend x') = 1
      \<and> backend x' \<noteq> backend y
      \<and> cells H' (backend x') = Some B'
      \<and> cells H' (backend y) = cells H (backend y)"
proof -
  from ensure_uniqueness_pair [OF wf] obtain x1 H1 where
    e: "ensure_uniqueness x H = (Inr x1, H1)" and w1: "consistent H1 [x1, y]"
    and u1: "use_count H1 (backend x1) = 1" and d1: "backend x1 \<noteq> backend y"
    and c1: "cells H1 (backend x1) = cells H (backend x)"
    and cy: "cells H1 (backend y) = cells H (backend y)"
    by blast
  have s: "store x1 f H1 = (Inr x1, H1\<lparr>cells := (cells H1)(backend x1 \<mapsto> B')\<rparr>)"
    using c1 B f by (simp add: store_def)
  show ?thesis
    using e s w1 u1 d1 cy by (auto simp: cow_store_def consistent_pair)
qed


lemma mutate_cow_store:
  assumes "cells H (backend x) = Some B"
  shows "mutate m x H =
     (if mutation_ok m B then cow_store x (\<lambda>B'. if mutation_ok m B' then Inr (mutation_effect m B') else Inl assertion_failed) H
      else (Inl assertion_failed, H))"
  using assms
  by (cases m)
    (auto simp: set_entry_def add_to_entry_def scal_def cow_store_def backend_nonconst_def
      coeff_write_def times_assign_def split: prod.splits sum.splits cong: if_cong)

lemma mutate_pair:
  assumes wf: "consistent H [x, y]" and B: "cells H (backend x) = Some B"
    and m: "mutate m x H = (Inr x', H')"
  shows "consistent H' [x', y]
      \<and> use_count H' (backend x') = 1
      \<and> backend x' \<noteq> backend y
      \<and> cells H' (backend x') = Some (mutation_effect m B)
      \<and> cells H' (backend y) = cells H (backend y)"
proof -
  have ok: "mutation_ok m B"
    using m mutate_cow_store [OF B, of m] by (auto split: if_splits)
  then have "mutate m x H = cow_store x (\<lambda>B'. if mutation_ok m B' then Inr (mutation_effect m B') else Inl assertion_failed) H"
    using mutate_cow_store [OF B, of m] by simp
  moreover have "(\<lambda>B'. if mutation_ok m B' then Inr (mutation_effect m B') else Inl assertion_failed) B = Inr (mutation_effect m B)"
    using ok by simp
  ultimately show ?thesis
    using cow_store_pair [OF wf B, of _ "mutation_effect m B"] m by fastforce
qed

lemma assign_pair:
  assumes wf: "consistent H [a, b0]" and as: "assign b0 a H = (b, H1)"
  shows "backend b = backend a \<and> consistent H1 [a, b]
      \<and> cells H1 (backend a) = cells H (backend a)"
  using assms
  by (auto simp: assign_def acquire_def release_def consistent_pair split: if_splits)

lemma get_entry_cong:
  "cells H (backend x) = cells H' (backend x') \<Longrightarrow> get_entry x ii jj H = get_entry x' ii jj H'"
  by (simp add: get_entry_def)

lemma run_contents:
  assumes "consistent H [a, b]" and "cells H (backend a) = Some A" and "cells H (backend b) = Some B"
    and "run ms a b H = (Inr (a', b'), H')"
  shows "cells H' (backend a') = Some (fold mutation_effect (map snd (filter fst ms)) A)
       \<and> cells H' (backend b') = Some (fold mutation_effect (map snd (filter (\<lambda>p. \<not> fst p) ms)) B)"
  using assms
proof (induction ms arbitrary: a b H A B)
  case Nil
  then show ?case by simp
next
  case (Cons p ms)
  obtain on_a m where p: "p = (on_a, m)" by (cases p)
  show ?case
  proof (cases on_a)
    case True
    from Cons.prems(4) p True obtain a1 H1 where
      m1: "mutate m a H = (Inr a1, H1)" and r: "run ms a1 b H1 = (Inr (a', b'), H')"
      by (auto split: prod.splits sum.splits)
    from mutate_pair [OF Cons.prems(1) Cons.prems(2) m1]
    have w: "consistent H1 [a1, b]" and ca: "cells H1 (backend a1) = Some (mutation_effect m A)"
      and cb: "cells H1 (backend b) = Some B"
      using Cons.prems(3) by simp_all
    from Cons.IH [OF w ca cb r] show ?thesis
      using p True by simp
  next
    case False
    from Cons.prems(4) p False obtain b1 H1 where
      m1: "mutate m b H = (Inr b1, H1)" and r: "run ms a b1 H1 = (Inr (a', b'), H')"
      by (auto split: prod.splits sum.splits)
    have w0: "consistent H [b, a]"
      using Cons.prems(1) by (simp add: consistent_swap)
    from mutate_pair [OF w0 Cons.prems(3) m1]
    have w: "consistent H1 [a, b1]" and cb: "cells H1 (backend b1) = Some (mutation_effect m B)"
      and ca: "cells H1 (backend a) = Some A"
      using Cons.prems(2) by (simp_all add: consistent_swap)
    from Cons.IH [OF w ca cb r] show ?thesis
      using p False by simp
  qed
qed

lemma mutation_ok_shape:
  "rows B = rows B' \<Longrightarrow> cols B = cols B' \<Longrightarrow> mutation_ok m B = mutation_ok m B'"
  by (cases m) simp_all

lemma mutation_effect_shape:
  "rows (mutation_effect m B) = rows B \<and> cols (mutation_effect m B) = cols B"
  by (cases m) simp_all

lemma mutate_returns:
  assumes wf: "consistent H [x, y]" and B: "cells H (backend x) = Some B" and ok: "mutation_ok m B"
  shows "\<exists>x' H'. mutate m x H = (Inr x', H')"
proof -
  let ?f = "\<lambda>B'. if mutation_ok m B' then Inr (mutation_effect m B') else Inl assertion_failed"
  have "?f B = Inr (mutation_effect m B)"
    using ok by simp
  from cow_store_pair [of H x y B ?f "mutation_effect m B", OF wf B this] show ?thesis
    using mutate_cow_store [OF B, of m] ok by auto
qed

lemma mutate_returns_ok:
  assumes "cells H (backend x) = Some B" and "mutate m x H = (Inr x', H')"
  shows "mutation_ok m B"
  using assms mutate_cow_store [of H x B m] by (auto split: if_splits)

lemma run_filter_returns:
  assumes "consistent H [a, b]" and "consistent K [a2, b2]"
    and "cells H (backend a) = Some A" and "cells K (backend a2) = Some A2"
    and "rows A = rows A2" and "cols A = cols A2"
    and "cells H (backend b) = Some B" and "cells K (backend b2) = Some B2"
    and "rows B = rows B2" and "cols B = cols B2"
    and "run ms a b H = (Inr r, H')"
  shows "\<exists>r' K'. run (filter P ms) a2 b2 K = (Inr r', K')"
  using assms
proof (induction ms arbitrary: a b H A B a2 b2 K A2 B2)
  case Nil
  then show ?case by simp
next
  case (Cons p ms)
  obtain on_a m where p: "p = (on_a, m)" by (cases p)
  show ?case
  proof (cases on_a)
    case True
    from Cons.prems(11) p True obtain a1 H1 where
      m1: "mutate m a H = (Inr a1, H1)" and r: "run ms a1 b H1 = (Inr r, H')"
      by (auto split: prod.splits sum.splits)
    have ok: "mutation_ok m A"
      by (rule mutate_returns_ok [OF Cons.prems(3) m1])
    from mutate_pair [OF Cons.prems(1) Cons.prems(3) m1]
    have w: "consistent H1 [a1, b]" and ca: "cells H1 (backend a1) = Some (mutation_effect m A)"
      and cb: "cells H1 (backend b) = Some B"
      using Cons.prems(7) by simp_all
    show ?thesis
    proof (cases "P p")
      case False
      have sa: "rows (mutation_effect m A) = rows A2" "cols (mutation_effect m A) = cols A2"
        using Cons.prems(5,6) by (simp_all add: mutation_effect_shape)
      from Cons.IH [OF w Cons.prems(2) ca Cons.prems(4) sa cb Cons.prems(8) Cons.prems(9,10) r]
      show ?thesis using False by simp
    next
      case Pp: True
      have ok2: "mutation_ok m A2"
        using ok mutation_ok_shape [OF Cons.prems(5,6)] by simp
      from mutate_returns [OF Cons.prems(2) Cons.prems(4) ok2] obtain a3 K1 where
        m2: "mutate m a2 K = (Inr a3, K1)" by blast
      from mutate_pair [OF Cons.prems(2) Cons.prems(4) m2]
      have w2: "consistent K1 [a3, b2]" and ca2: "cells K1 (backend a3) = Some (mutation_effect m A2)"
        and cb2: "cells K1 (backend b2) = Some B2"
        using Cons.prems(8) by simp_all
      have sa: "rows (mutation_effect m A) = rows (mutation_effect m A2)"
        "cols (mutation_effect m A) = cols (mutation_effect m A2)"
        using Cons.prems(5,6) by (simp_all add: mutation_effect_shape)
      from Cons.IH [OF w w2 ca ca2 sa cb cb2 Cons.prems(9,10) r]
      show ?thesis using Pp p True m2 by simp
    qed
  next
    case False
    from Cons.prems(11) p False obtain b1 H1 where
      m1: "mutate m b H = (Inr b1, H1)" and r: "run ms a b1 H1 = (Inr r, H')"
      by (auto split: prod.splits sum.splits)
    have ok: "mutation_ok m B"
      by (rule mutate_returns_ok [OF Cons.prems(7) m1])
    have w0: "consistent H [b, a]"
      using Cons.prems(1) by (simp add: consistent_swap)
    from mutate_pair [OF w0 Cons.prems(7) m1]
    have w: "consistent H1 [a, b1]" and cb: "cells H1 (backend b1) = Some (mutation_effect m B)"
      and ca: "cells H1 (backend a) = Some A"
      using Cons.prems(3) by (simp_all add: consistent_swap)
    show ?thesis
    proof (cases "P p")
      case False
      have sb: "rows (mutation_effect m B) = rows B2" "cols (mutation_effect m B) = cols B2"
        using Cons.prems(9,10) by (simp_all add: mutation_effect_shape)
      from Cons.IH [OF w Cons.prems(2) ca Cons.prems(4) Cons.prems(5,6) cb Cons.prems(8) sb r]
      show ?thesis using False by simp
    next
      case Pp: True
      have ok2: "mutation_ok m B2"
        using ok mutation_ok_shape [OF Cons.prems(9,10)] by simp
      have k0: "consistent K [b2, a2]"
        using Cons.prems(2) by (simp add: consistent_swap)
      from mutate_returns [OF k0 Cons.prems(8) ok2] obtain b3 K1 where
        m2: "mutate m b2 K = (Inr b3, K1)" by blast
      from mutate_pair [OF k0 Cons.prems(8) m2]
      have w2: "consistent K1 [a2, b3]" and cb2: "cells K1 (backend b3) = Some (mutation_effect m B2)"
        and ca2: "cells K1 (backend a2) = Some A2"
        using Cons.prems(4) by (simp_all add: consistent_swap)
      have sb: "rows (mutation_effect m B) = rows (mutation_effect m B2)"
        "cols (mutation_effect m B) = cols (mutation_effect m B2)"
        using Cons.prems(9,10) by (simp_all add: mutation_effect_shape)
      from Cons.IH [OF w w2 ca ca2 Cons.prems(5,6) cb cb2 sb r]
      show ?thesis using Pp p False m2 by simp
    qed
  qed
qed

lemma two_by_two_eq:
  "two_by_two = \<lparr>cells = [0 \<mapsto> \<lparr>rows = 2, cols = 2, coeff = (\<lambda>i j. 0)\<rparr>,
                          1 \<mapsto> \<lparr>rows = 2, cols = 2, coeff = (\<lambda>i j. 1 * 7)\<rparr>],
                 use_count = (\<lambda>p. 0)(0 := 1, 1 := 1), lim = 2\<rparr>"
  by (simp add: two_by_two_def EigenDenseMatrix_new_def empty_heap_def make_shared_def
      setZero_def setOnes_def times_assign_def)

lemma three_matrices_eq:
  "three_matrices = \<lparr>cells = [0 \<mapsto> \<lparr>rows = 2, cols = 2, coeff = (\<lambda>i j. 0)\<rparr>,
                          1 \<mapsto> \<lparr>rows = 2, cols = 2, coeff = (\<lambda>i j. 1 * 7)\<rparr>,
                          2 \<mapsto> \<lparr>rows = 3, cols = 2, coeff = (\<lambda>i j. 1 * 1)\<rparr>],
                 use_count = (\<lambda>p. 0)(0 := 1, 1 := 1, 2 := 1), lim = 3\<rparr>"
  by (simp add: three_matrices_def two_by_two_eq EigenDenseMatrix_new_def make_shared_def
      setZero_def setOnes_def times_assign_def)

lemma show_nat_digit: "n < 10 \<Longrightarrow> show_nat n = [digit_char n]"
  by (simp add: show_nat.simps [of n])

lemmas container_defs = set_entry_def add_to_entry_def scal_def backend_nonconst_def
  ensure_uniqueness_def store_def coeff_write_def times_assign_def make_shared_def
  release_def acquire_def assign_def get_entry_def

text \<open>
  C1. Let \<open>a\<close> and \<open>b\<close> be two dense matrix containers in a consistent store and let
  \<open>b = a\<close> be executed. Then both hold the same backend and \<open>a\<close>'s entries are what they
  were. Every \<open>set_entry\<close>, \<open>add_to_entry\<close> or \<open>scal\<close> on \<open>b\<close> that returns leaves
  \<open>b\<close> with a backend of its own, held by \<open>b\<close> alone and holding the mutated copy of
  the shared one, and leaves every entry of \<open>a\<close> unchanged; the same with \<open>a\<close> and
  \<open>b\<close> exchanged. For every program of such mutations on the two containers that
  returns, the program of the mutations of one container alone returns too, and that
  container's entries at the end of the two programs are the same: mutations of one never
  affect the other.
\<close>

theorem copy_on_write_divergence:
  fixes H :: "('a::{plus,times}) heap"
  assumes wf: "consistent H [a, b0]" and as: "assign b0 a H = (b, H1)"
  shows "backend b = backend a
    \<and> (\<forall>ii jj. get_entry a ii jj H1 = get_entry a ii jj H)
    \<and> (\<forall>m b' H2. mutate m b H1 = (Inr b', H2) \<longrightarrow>
          backend b' \<noteq> backend a \<and> use_count H2 (backend b') = 1
          \<and> cells H2 (backend b') = map_option (mutation_effect m) (cells H1 (backend a))
          \<and> (\<forall>ii jj. get_entry a ii jj H2 = get_entry a ii jj H1))
    \<and> (\<forall>m a' H2. mutate m a H1 = (Inr a', H2) \<longrightarrow>
          backend a' \<noteq> backend b \<and> use_count H2 (backend a') = 1
          \<and> cells H2 (backend a') = map_option (mutation_effect m) (cells H1 (backend b))
          \<and> (\<forall>ii jj. get_entry b ii jj H2 = get_entry b ii jj H1))
    \<and> (\<forall>ms a' b' H2. run ms a b H1 = (Inr (a', b'), H2) \<longrightarrow>
          (\<exists>a'' b'' H3. run (filter fst ms) a b H1 = (Inr (a'', b''), H3)
             \<and> (\<forall>ii jj. get_entry a' ii jj H2 = get_entry a'' ii jj H3))
          \<and> (\<exists>a'' b'' H3. run (filter (\<lambda>p. \<not> fst p) ms) a b H1 = (Inr (a'', b''), H3)
             \<and> (\<forall>ii jj. get_entry b' ii jj H2 = get_entry b'' ii jj H3)))"
proof -
  from assign_pair [OF wf as] have sh: "backend b = backend a" and w1: "consistent H1 [a, b]"
    and ca: "cells H1 (backend a) = cells H (backend a)"
    by simp_all
  from w1 obtain A where A: "cells H1 (backend a) = Some A"
    by (auto simp: consistent_pair)
  have B: "cells H1 (backend b) = Some A"
    using A sh by simp
  have w1': "consistent H1 [b, a]"
    using w1 by (simp add: consistent_swap)
  have p2: "\<forall>ii jj. get_entry a ii jj H1 = get_entry a ii jj H"
    using ca by (simp add: get_entry_def)
  have p3: "\<forall>m b' H2. mutate m b H1 = (Inr b', H2) \<longrightarrow>
          backend b' \<noteq> backend a \<and> use_count H2 (backend b') = 1
          \<and> cells H2 (backend b') = map_option (mutation_effect m) (cells H1 (backend a))
          \<and> (\<forall>ii jj. get_entry a ii jj H2 = get_entry a ii jj H1)"
    using mutate_pair [OF w1' B] A by (auto simp: get_entry_def)
  have p4: "\<forall>m a' H2. mutate m a H1 = (Inr a', H2) \<longrightarrow>
          backend a' \<noteq> backend b \<and> use_count H2 (backend a') = 1
          \<and> cells H2 (backend a') = map_option (mutation_effect m) (cells H1 (backend b))
          \<and> (\<forall>ii jj. get_entry b ii jj H2 = get_entry b ii jj H1)"
    using mutate_pair [OF w1 A] B by (auto simp: get_entry_def)
  have p5: "\<forall>ms a' b' H2. run ms a b H1 = (Inr (a', b'), H2) \<longrightarrow>
          (\<exists>a'' b'' H3. run (filter fst ms) a b H1 = (Inr (a'', b''), H3)
             \<and> (\<forall>ii jj. get_entry a' ii jj H2 = get_entry a'' ii jj H3))
          \<and> (\<exists>a'' b'' H3. run (filter (\<lambda>p. \<not> fst p) ms) a b H1 = (Inr (a'', b''), H3)
             \<and> (\<forall>ii jj. get_entry b' ii jj H2 = get_entry b'' ii jj H3))"
  proof (intro allI impI conjI)
    fix ms a' b' H2
    assume r1: "run ms a b H1 = (Inr (a', b'), H2)"
    from run_filter_returns [OF w1 w1 A A refl refl B B refl refl r1, of fst]
    obtain a'' b'' H3 where r2: "run (filter fst ms) a b H1 = (Inr (a'', b''), H3)"
      by (metis surj_pair)
    from run_contents [OF w1 A B r1] run_contents [OF w1 A B r2]
    have "cells H2 (backend a') = cells H3 (backend a'')" by simp
    then have "\<forall>ii jj. get_entry a' ii jj H2 = get_entry a'' ii jj H3"
      by (simp add: get_entry_def)
    then show "\<exists>a'' b'' H3. run (filter fst ms) a b H1 = (Inr (a'', b''), H3)
             \<and> (\<forall>ii jj. get_entry a' ii jj H2 = get_entry a'' ii jj H3)"
      using r2 by blast
  next
    fix ms a' b' H2
    assume r1: "run ms a b H1 = (Inr (a', b'), H2)"
    from run_filter_returns [OF w1 w1 A A refl refl B B refl refl r1, of "\<lambda>p. \<not> fst p"]
    obtain a'' b'' H3 where r2: "run (filter (\<lambda>p. \<not> fst p) ms) a b H1 = (Inr (a'', b''), H3)"
      by (metis surj_pair)
    from run_contents [OF w1 A B r1] run_contents [OF w1 A B r2]
    have "cells H2 (backend b') = cells H3 (backend b'')" by simp
    then have "\<forall>ii jj. get_entry b' ii jj H2 = get_entry b'' ii jj H3"
      by (simp add: get_entry_def)
    then show "\<exists>a'' b'' H3. run (filter (\<lambda>p. \<not> fst p) ms) a b H1 = (Inr (a'', b''), H3)
             \<and> (\<forall>ii jj. get_entry b' ii jj H2 = get_entry b'' ii jj H3)"
      using r2 by blast
  qed
  show ?thesis
    using sh p2 p3 p4 p5 by blast
qed

theorem copy_on_write_divergence_witness:
  "consistent two_by_two [\<lparr>backend = 1\<rparr>, \<lparr>backend = 0\<rparr>]
   \<and> (\<exists>b H1. assign \<lparr>backend = 0\<rparr> \<lparr>backend = 1\<rparr> two_by_two = (b, H1)
         \<and> backend b = 1
         \<and> (\<exists>b' H2. mutate (Set_entry 0 1 5) b H1 = (Inr b', H2)
               \<and> backend b' \<noteq> 1 \<and> use_count H2 (backend b') = 1
               \<and> get_entry b' 0 1 H2 = Inr 5
               \<and> get_entry \<lparr>backend = 1\<rparr> 0 1 H2 = Inr 7)
         \<and> (\<exists>a' b' H2 a'' b'' H3.
               run example_program \<lparr>backend = 1\<rparr> b H1 = (Inr (a', b'), H2)
               \<and> run (filter fst example_program) \<lparr>backend = 1\<rparr> b H1 = (Inr (a'', b''), H3)
               \<and> get_entry a' 0 1 H2 = get_entry a'' 0 1 H3
               \<and> get_entry a' 0 1 H2 = Inr 21
               \<and> get_entry b' 0 1 H2 = Inr 6))"
proof -
  let ?a = "\<lparr>backend = 1\<rparr>" and ?b0 = "\<lparr>backend = 0\<rparr>"
  have w: "consistent two_by_two [?a, ?b0]"
    by (simp add: two_by_two_eq consistent_pair)
  define H1 where "H1 = snd (assign ?b0 ?a two_by_two)"
  have as: "assign ?b0 ?a two_by_two = (?a, H1)"
    by (simp add: H1_def assign_def)
  have H1: "H1 = \<lparr>cells = [1 \<mapsto> \<lparr>rows = 2, cols = 2, coeff = (\<lambda>i j. 1 * 7)\<rparr>],
                  use_count = (\<lambda>p. 0)(1 := 2), lim = 2\<rparr>"
    by (auto simp: H1_def assign_def acquire_def release_def two_by_two_eq)
  obtain r H2 where m: "mutate (Set_entry 0 1 5) ?a H1 = (r, H2)"
    by (cases "mutate (Set_entry 0 1 5) ?a H1")
  have r: "r = Inr \<lparr>backend = 2\<rparr>" and g: "get_entry \<lparr>backend = 2\<rparr> 0 1 H2 = Inr 5"
    using m by (auto simp: H1 container_defs)
  have g1: "get_entry ?a 0 1 H1 = Inr 7"
    by (simp add: H1 get_entry_def)
  obtain a' b' H3 where p: "run example_program ?a ?a H1 = (Inr (a', b'), H3)"
    and pa: "get_entry a' 0 1 H3 = Inr 21" and pb: "get_entry b' 0 1 H3 = Inr 6"
    by (simp add: example_program_def H1 container_defs)
  note t = copy_on_write_divergence [OF w as]
  note t3 = t [THEN conjunct2, THEN conjunct2, THEN conjunct1, rule_format]
  note t5 = t [THEN conjunct2, THEN conjunct2, THEN conjunct2, THEN conjunct2, rule_format,
      THEN conjunct1]
  from t3 [OF m [unfolded r]]
  have d: "backend \<lparr>backend = 2\<rparr> \<noteq> (1::nat)" "use_count H2 (backend \<lparr>backend = 2\<rparr>) = 1"
    "get_entry ?a 0 1 H2 = get_entry ?a 0 1 H1"
    by simp_all
  from t5 [OF p] obtain a'' b'' H4 where
    q: "run (filter fst example_program) ?a ?a H1 = (Inr (a'', b''), H4)"
    and e: "get_entry a' 0 1 H3 = get_entry a'' 0 1 H4"
    by blast
  have first: "\<exists>b' H2. mutate (Set_entry 0 1 5) ?a H1 = (Inr b', H2)
               \<and> backend b' \<noteq> 1 \<and> use_count H2 (backend b') = 1
               \<and> get_entry b' 0 1 H2 = Inr 5
               \<and> get_entry \<lparr>backend = 1\<rparr> 0 1 H2 = Inr 7"
    using m r g d g1 by auto
  have later: "\<exists>a' b' H2 a'' b'' H3.
               run example_program ?a ?a H1 = (Inr (a', b'), H2)
               \<and> run (filter fst example_program) ?a ?a H1 = (Inr (a'', b''), H3)
               \<and> get_entry a' 0 1 H2 = get_entry a'' 0 1 H3
               \<and> get_entry a' 0 1 H2 = Inr 21
               \<and> get_entry b' 0 1 H2 = Inr 6"
    using p q e pa pb by blast
  show ?thesis
    using w as first later by auto
qed

subsection \<open>Row and column operations\<close>

lemma ensure_uniqueness_single:
  assumes "consistent H [x]"
  shows "\<exists>x' H'. ensure_uniqueness x H = (Inr x', H')
      \<and> consistent H' [x']
      \<and> cells H' (backend x') = cells H (backend x)
      \<and> (\<forall>q. q < lim H \<longrightarrow> cells H' q = cells H q)
      \<and> (backend x' = backend x \<or> backend x' = lim H)"
proof (cases "use_count H (backend x) = 1")
  case True
  then show ?thesis
    using assms by (simp add: ensure_uniqueness_unique)
next
  case False
  from assms obtain B where B: "cells H (backend x) = Some B"
    by (auto simp: consistent_single)
  have "1 \<le> use_count H (backend x)" "backend x < lim H"
    using assms by (auto simp: consistent_single)
  from ensure_uniqueness_shared [OF False this(1) B this(2)] show ?thesis
    using assms B by (auto simp: consistent_single)
qed

lemma store_all_cell:
  assumes "cells H (backend x) = Some B" and "\<forall>p \<in> set ps. fst p < rows B \<and> snd p < cols B"
  shows "\<exists>H' B'. store_all x ps v H = (Inr x, H')
      \<and> cells H' (backend x) = Some B'
      \<and> rows B' = rows B \<and> cols B' = cols B
      \<and> (\<forall>i j. coeff B' i j = (if (i, j) \<in> set ps then v else coeff B i j))"
  using assms
proof (induction ps arbitrary: H B)
  case Nil
  then show ?case by simp
next
  case (Cons p ps)
  obtain i j where p: "p = (i, j)" by (cases p)
  let ?B1 = "B\<lparr>coeff := (coeff B)(i := (coeff B i)(j := v))\<rparr>"
  let ?H1 = "H\<lparr>cells := (cells H)(backend x \<mapsto> ?B1)\<rparr>"
  have s: "store x (\<lambda>B. coeff_write B i j v) H = (Inr x, ?H1)"
    using Cons.prems p by (simp add: store_def coeff_write_def)
  have c1: "cells ?H1 (backend x) = Some ?B1" by simp
  have r1: "\<forall>p \<in> set ps. fst p < rows ?B1 \<and> snd p < cols ?B1"
    using Cons.prems(2) by simp
  from Cons.IH [OF c1 r1] obtain H' B' where
    a: "store_all x ps v ?H1 = (Inr x, H')" and b: "cells H' (backend x) = Some B'"
    and c: "rows B' = rows B" "cols B' = cols B"
    and d: "\<forall>i' j'. coeff B' i' j' = (if (i', j') \<in> set ps then v else coeff ?B1 i' j')"
    by auto
  have "store_all x (p # ps) v H = (Inr x, H')"
    using s a p by simp
  moreover have "\<forall>i' j'. coeff B' i' j' = (if (i', j') \<in> set (p # ps) then v else coeff B i' j')"
    using d p by auto
  ultimately show ?case
    using b c by blast
qed

text \<open>
  C2. For a dense matrix container \<open>m\<close> and an index \<open>i\<close> with \<open>i \<ge> rows()\<close>,
  \<open>clear_row(i)\<close> and \<open>unit_row(i)\<close> throw \<open>index_out_of_range\<close> and leave the store, and
  with it every entry, as it was; for \<open>j \<ge> cols()\<close> so do \<open>clear_col(j)\<close> and
  \<open>unit_col(j)\<close>. This includes the index one past the last, \<open>i = rows()\<close> and
  \<open>j = cols()\<close>.
\<close>

theorem row_col_index_out_of_range:
  fixes H :: "('a::{zero,one}) heap"
  assumes "cells H (backend m) = Some B"
  shows "(rows B \<le> i \<longrightarrow>
            clear_row m i H = (Inl (index_out_of_range (row_message i (rows B))), H)
          \<and> unit_row m i H = (Inl (index_out_of_range (row_message i (rows B))), H))
       \<and> (cols B \<le> j \<longrightarrow>
            clear_col m j H = (Inl (index_out_of_range (col_message j (cols B))), H)
          \<and> unit_col m j H = (Inl (index_out_of_range (col_message j (cols B))), H))"
  using assms by (simp add: clear_row_def unit_row_def clear_col_def unit_col_def)

theorem row_col_index_out_of_range_witness:
  "cells three_matrices (backend \<lparr>backend = 2\<rparr>)
       = Some \<lparr>rows = 3, cols = 2, coeff = (\<lambda>i j. 1 * 1)\<rparr>
   \<and> clear_row \<lparr>backend = 2\<rparr> 3 three_matrices
       = (Inl (index_out_of_range ''Given ii (3) is larger than the rows of this (3)!''), three_matrices)
   \<and> unit_row \<lparr>backend = 2\<rparr> 3 three_matrices
       = (Inl (index_out_of_range ''Given ii (3) is larger than the rows of this (3)!''), three_matrices)
   \<and> clear_col \<lparr>backend = 2\<rparr> 2 three_matrices
       = (Inl (index_out_of_range ''Given jj (2) is larger than the cols of this (2)!''), three_matrices)
   \<and> unit_col \<lparr>backend = 2\<rparr> 2 three_matrices
       = (Inl (index_out_of_range ''Given jj (2) is larger than the cols of this (2)!''), three_matrices)"
proof -
  have c: "cells three_matrices (backend \<lparr>backend = 2\<rparr>)
       = Some \<lparr>rows = 3, cols = 2, coeff = (\<lambda>i j. 1 * 1)\<rparr>"
    by (simp add: three_matrices_eq)
  from row_col_index_out_of_range [OF c, of 3 2] show ?thesis
    using c by (simp add: row_message_def col_message_def show_nat_digit)
qed

text \<open>
  C5. For an \<open>N \<times> N\<close> dense matrix container \<open>m\<close> and a row index \<open>i < N\<close>,
  \<open>m.unit_row(i)\<close> returns, and afterwards \<open>get_entry(i, j)\<close> is \<open>0\<close> for every
  \<open>j \<noteq> i\<close> and \<open>get_entry(i, i)\<close> is \<open>1\<close>, while every entry of a row other than \<open>i\<close> is
  what it was.
\<close>

theorem unit_row_square:
  fixes H :: "('a::{zero,one}) heap"
  assumes wf: "consistent H [m]" and B: "cells H (backend m) = Some B"
    and sq: "rows B = N" "cols B = N" and i: "i < N"
  shows "\<exists>m' H'. unit_row m i H = (Inr m', H')
      \<and> (\<forall>j<N. get_entry m' i j H' = Inr (if j = i then 1 else 0))
      \<and> (\<forall>r<N. \<forall>j<N. r \<noteq> i \<longrightarrow> get_entry m' r j H' = get_entry m r j H)"
proof -
  from ensure_uniqueness_single [OF wf] obtain m1 H1 where
    e: "ensure_uniqueness m H = (Inr m1, H1)" and c1: "cells H1 (backend m1) = Some B"
    using B by auto
  let ?ps = "map (\<lambda>jj. (i, jj)) [0 ..< cols B]"
  have "\<forall>p \<in> set ?ps. fst p < rows B \<and> snd p < cols B"
    using sq i by auto
  from store_all_cell [OF c1 this, of 0] obtain H2 B2 where
    s: "store_all m1 ?ps 0 H1 = (Inr m1, H2)" and c2: "cells H2 (backend m1) = Some B2"
    and sh: "rows B2 = rows B" "cols B2 = cols B"
    and co: "\<forall>r j. coeff B2 r j = (if (r, j) \<in> set ?ps then 0 else coeff B r j)"
    by blast
  let ?B3 = "B2\<lparr>coeff := (coeff B2)(i := (coeff B2 i)(i := 1))\<rparr>"
  let ?H3 = "H2\<lparr>cells := (cells H2)(backend m1 \<mapsto> ?B3)\<rparr>"
  have w: "store m1 (\<lambda>B'. coeff_write B' i i 1) H2 = (Inr m1, ?H3)"
    using c2 sh sq i by (simp add: store_def coeff_write_def)
  have u: "unit_row m i H = (Inr m1, ?H3)"
    using B sq i e s w by (simp add: unit_row_def)
  have g1: "\<forall>j<N. get_entry m1 i j ?H3 = Inr (if j = i then 1 else 0)"
    using sh sq i co by (auto simp: get_entry_def)
  have g2: "\<forall>r<N. \<forall>j<N. r \<noteq> i \<longrightarrow> get_entry m1 r j ?H3 = get_entry m r j H"
    using sh sq i co B by (auto simp: get_entry_def)
  show ?thesis
    using u g1 g2 by blast
qed

theorem unit_row_square_witness:
  "consistent three_matrices [\<lparr>backend = 1\<rparr>]
   \<and> cells three_matrices (backend \<lparr>backend = 1\<rparr>)
       = Some \<lparr>rows = 2, cols = 2, coeff = (\<lambda>i j. 1 * 7)\<rparr>
   \<and> (\<exists>m' H'. unit_row \<lparr>backend = 1\<rparr> 0 three_matrices = (Inr m', H')
         \<and> get_entry m' 0 0 H' = Inr 1 \<and> get_entry m' 0 1 H' = Inr 0
         \<and> get_entry m' 1 0 H' = Inr 7 \<and> get_entry m' 1 1 H' = Inr 7)"
proof -
  let ?m = "\<lparr>backend = 1\<rparr>" and ?S = "\<lparr>rows = 2, cols = 2, coeff = (\<lambda>i j. 1 * (7::int))\<rparr>"
  have w: "consistent three_matrices [?m]"
    by (simp add: three_matrices_eq consistent_single)
  have c: "cells three_matrices (backend ?m) = Some ?S"
    by (simp add: three_matrices_eq)
  have g: "get_entry ?m 1 0 three_matrices = Inr 7" "get_entry ?m 1 1 three_matrices = Inr 7"
    by (simp_all add: get_entry_def three_matrices_eq)
  from unit_row_square [OF w c, of 2 0] obtain m' H' where
    u: "unit_row ?m 0 three_matrices = (Inr m', H')"
    and r: "\<forall>j<2. get_entry m' 0 j H' = Inr (if j = 0 then 1 else 0)"
    and o: "\<forall>r<2. \<forall>j<2. r \<noteq> 0 \<longrightarrow> get_entry m' r j H' = get_entry ?m r j three_matrices"
    by auto
  have "get_entry m' 0 0 H' = Inr 1" "get_entry m' 0 1 H' = Inr 0"
    using r by simp_all
  moreover have "get_entry m' 1 0 H' = Inr 7" "get_entry m' 1 1 H' = Inr 7"
    using o g by simp_all
  ultimately show ?thesis
    using w c u by blast
qed

subsection \<open>axpy\<close>

lemma axpy_equal_shape:
  fixes H :: "('a::{plus,times}) heap"
  assumes wa: "consistent H [a]" and wx: "consistent H [x]"
    and A: "cells H (backend a) = Some A" and X: "cells H (backend x) = Some X"
    and sh: "rows A = rows X" "cols A = cols X"
  shows "\<exists>a' H'. axpy a alpha x H = (Inr a', H')
      \<and> cells H' (backend a') = Some (plus_assign_scaled A alpha X)"
proof -
  from ensure_uniqueness_single [OF wa] obtain a1 H1 where
    e: "ensure_uniqueness a H = (Inr a1, H1)" and c1: "cells H1 (backend a1) = Some A"
    and k: "\<forall>q. q < lim H \<longrightarrow> cells H1 q = cells H q"
    using A by auto
  have "backend x < lim H"
    using wx by (simp add: consistent_single)
  then have cx: "cells H1 (backend x) = Some X"
    using k X by simp
  have "store a1 (\<lambda>B'. Inr (plus_assign_scaled B' alpha X)) H1
      = (Inr a1, H1\<lparr>cells := (cells H1)(backend a1 \<mapsto> plus_assign_scaled A alpha X)\<rparr>)"
    using c1 by (simp add: store_def)
  then show ?thesis
    using A X sh e cx by (simp add: axpy_def backend_nonconst_def)
qed

lemma axpy_shape_mismatch:
  assumes "cells H (backend a) = Some A" and "cells H (backend x) = Some X"
    and "rows X \<noteq> rows A \<or> cols X \<noteq> cols A"
  shows "axpy a alpha x H =
     (Inl (shapes_do_not_match (shape_mismatch_message (rows X) (cols X) (rows A) (cols A))), H)"
  using assms by (auto simp: axpy_def)

lemma shape_mismatch_message_contains:
  "sublist (show_nat xr @ ''x'' @ show_nat xc) (shape_mismatch_message xr xc r c)"
  "sublist (show_nat r @ ''x'' @ show_nat c) (shape_mismatch_message xr xc r c)"
proof -
  show "sublist (show_nat xr @ ''x'' @ show_nat xc) (shape_mismatch_message xr xc r c)"
    unfolding sublist_def shape_mismatch_message_def
    by (rule exI [of _ "''The shape of xx (''"],
        rule exI [of _ "'') does not match the shape of this ('' @ show_nat r @ ''x'' @ show_nat c @ '')!''"])
      simp
  show "sublist (show_nat r @ ''x'' @ show_nat c) (shape_mismatch_message xr xc r c)"
    unfolding sublist_def shape_mismatch_message_def
    by (rule exI [of _ "''The shape of xx ('' @ show_nat xr @ ''x'' @ show_nat xc @ '') does not match the shape of this (''"],
        rule exI [of _ "'')!''"])
      simp
qed

text \<open>
  C3. For dense matrix containers \<open>a\<close> and \<open>x\<close>, \<open>a.axpy(alpha, x)\<close> throws
  \<open>shapes_do_not_match\<close> if and only if the shape of \<open>x\<close> differs from that of \<open>a\<close> (rows
  or columns unequal); the message of the exception contains both shapes, that of \<open>x\<close> and
  that of \<open>a\<close>, each written rows, \<open>x\<close>, columns, and the store is left as it was. When the
  shapes are equal the call returns and every entry of \<open>a\<close> is the old entry plus
  \<open>alpha\<close> times the entry of \<open>x\<close>.
\<close>

theorem axpy_shape_check:
  fixes H :: "('a::{plus,times}) heap"
  assumes wa: "consistent H [a]" and wx: "consistent H [x]"
    and A: "cells H (backend a) = Some A" and X: "cells H (backend x) = Some X"
  shows "((\<exists>msg. fst (axpy a alpha x H) = Inl (shapes_do_not_match msg))
            \<longleftrightarrow> (rows X \<noteq> rows A \<or> cols X \<noteq> cols A))
      \<and> (rows X \<noteq> rows A \<or> cols X \<noteq> cols A \<longrightarrow>
            (\<exists>msg. axpy a alpha x H = (Inl (shapes_do_not_match msg), H)
               \<and> sublist (show_nat (rows X) @ ''x'' @ show_nat (cols X)) msg
               \<and> sublist (show_nat (rows A) @ ''x'' @ show_nat (cols A)) msg))
      \<and> (rows X = rows A \<and> cols X = cols A \<longrightarrow>
            (\<exists>a' H'. axpy a alpha x H = (Inr a', H')
               \<and> (\<forall>ii<rows A. \<forall>jj<cols A.
                     get_entry a' ii jj H' = Inr (coeff A ii jj + alpha * coeff X ii jj))))"
    (is "(?raises \<longleftrightarrow> ?differ) \<and> (?differ \<longrightarrow> ?reported) \<and> (?same \<longrightarrow> ?added)")
proof (cases ?differ)
  case True
  let ?msg = "shape_mismatch_message (rows X) (cols X) (rows A) (cols A)"
  have r: "axpy a alpha x H = (Inl (shapes_do_not_match ?msg), H)"
    by (rule axpy_shape_mismatch [OF A X True])
  have "fst (axpy a alpha x H) = Inl (shapes_do_not_match ?msg)"
    by (simp only: r fst_conv)
  then have l: ?raises ..
  have "axpy a alpha x H = (Inl (shapes_do_not_match ?msg), H)
      \<and> sublist (show_nat (rows X) @ ''x'' @ show_nat (cols X)) ?msg
      \<and> sublist (show_nat (rows A) @ ''x'' @ show_nat (cols A)) ?msg"
    by (intro conjI r shape_mismatch_message_contains)
  then have c: ?reported ..
  have n: "\<not> ?same"
    using True by (simp only: de_Morgan_conj)
  from l True c n show ?thesis
    by (intro conjI impI iffI) (assumption | erule notE, assumption)+
next
  case False
  then have sh: "rows A = rows X" "cols A = cols X" by simp_all
  from axpy_equal_shape [OF wa wx A X sh, of alpha] obtain a' H' where
    r: "axpy a alpha x H = (Inr a', H')"
    and c: "cells H' (backend a') = Some (plus_assign_scaled A alpha X)"
    by blast
  have g: "\<forall>ii<rows A. \<forall>jj<cols A. get_entry a' ii jj H' = Inr (coeff A ii jj + alpha * coeff X ii jj)"
    using c by (simp add: get_entry_def plus_assign_scaled_def)
  have "axpy a alpha x H = (Inr a', H')
      \<and> (\<forall>ii<rows A. \<forall>jj<cols A. get_entry a' ii jj H' = Inr (coeff A ii jj + alpha * coeff X ii jj))"
    by (intro conjI r g)
  then have ad: ?added by blast
  have nl: "\<not> ?raises"
    by (simp add: r)
  from nl False ad show ?thesis
    by (intro conjI impI iffI) (assumption | erule notE, assumption)+
qed

theorem axpy_shape_check_witness:
  "consistent three_matrices [\<lparr>backend = 0\<rparr>] \<and> consistent three_matrices [\<lparr>backend = 1\<rparr>]
   \<and> consistent three_matrices [\<lparr>backend = 2\<rparr>]
   \<and> (\<exists>a' H'. axpy \<lparr>backend = 0\<rparr> 3 \<lparr>backend = 1\<rparr> three_matrices = (Inr a', H')
         \<and> get_entry a' 0 0 H' = Inr 21 \<and> get_entry a' 1 1 H' = Inr 21)
   \<and> (\<exists>msg. axpy \<lparr>backend = 0\<rparr> 3 \<lparr>backend = 2\<rparr> three_matrices
                = (Inl (shapes_do_not_match msg), three_matrices)
         \<and> sublist ''3x2'' msg \<and> sublist ''2x2'' msg)"
proof -
  let ?a = "\<lparr>backend = 0\<rparr>" and ?x = "\<lparr>backend = 1\<rparr>" and ?y = "\<lparr>backend = 2\<rparr>"
  let ?A = "\<lparr>rows = 2, cols = 2, coeff = (\<lambda>i j. (0::int))\<rparr>"
  let ?X = "\<lparr>rows = 2, cols = 2, coeff = (\<lambda>i j. 1 * (7::int))\<rparr>"
  let ?Y = "\<lparr>rows = 3, cols = 2, coeff = (\<lambda>i j. 1 * (1::int))\<rparr>"
  have wa: "consistent three_matrices [?a]" and wx: "consistent three_matrices [?x]"
    and wy: "consistent three_matrices [?y]"
    by (simp_all add: three_matrices_eq consistent_single)
  have A: "cells three_matrices (backend ?a) = Some ?A" and X: "cells three_matrices (backend ?x) = Some ?X"
    and Y: "cells three_matrices (backend ?y) = Some ?Y"
    by (simp_all add: three_matrices_eq)
  from axpy_shape_check [OF wa wx A X, of 3] obtain a' H' where
    u: "axpy ?a 3 ?x three_matrices = (Inr a', H')"
    and r: "\<forall>ii<2. \<forall>jj<2. get_entry a' ii jj H' = Inr (0 + 3 * (1 * 7))"
    by auto
  have e: "get_entry a' 0 0 H' = Inr 21" "get_entry a' 1 1 H' = Inr 21"
    using r by simp_all
  from axpy_shape_check [OF wa wy A Y, of 3] obtain msg where
    m: "axpy ?a 3 ?y three_matrices = (Inl (shapes_do_not_match msg), three_matrices)"
    and s: "sublist (show_nat 3 @ ''x'' @ show_nat 2) msg" "sublist (show_nat 2 @ ''x'' @ show_nat 2) msg"
    by auto
  have "sublist ''3x2'' msg" "sublist ''2x2'' msg"
    using s by (simp_all add: show_nat_digit)
  then show ?thesis
    using wa wx wy u e m by blast
qed

lemma zero_times_finite: "is_finite y \<Longrightarrow> x + 0 * y = (x :: ieee)"
  by (cases x; cases y) (simp_all add: zero_ieee_def)

lemma ieee_matrices_eq:
  "ieee_matrices = \<lparr>cells = [0 \<mapsto> \<lparr>rows = 2, cols = 2, coeff = (\<lambda>i j. Finite 7)\<rparr>,
                          1 \<mapsto> \<lparr>rows = 2, cols = 2, coeff = (\<lambda>i j. Finite 3)\<rparr>,
                          2 \<mapsto> \<lparr>rows = 2, cols = 2, coeff = (\<lambda>i j. Infinity False)\<rparr>],
                 use_count = (\<lambda>p. 0)(0 := 1, 1 := 1, 2 := 1), lim = 3\<rparr>"
  by (simp add: ieee_matrices_def EigenDenseMatrix_new_def empty_heap_def make_shared_def
      setZero_def setOnes_def times_assign_def zero_ieee_def one_ieee_def numeral_2_eq_2)

text \<open>
  C6, as the code has it. For a dense matrix container \<open>a\<close> and a container \<open>b\<close> of the
  same shape whose entries are all finite, \<open>a.axpy(0, b)\<close> returns and leaves every entry
  of \<open>a\<close> as it was (whatever the entries of \<open>a\<close> are).
\<close>

theorem axpy_zero_finite:
  fixes H :: "ieee heap"
  assumes wa: "consistent H [a]" and wb: "consistent H [b]"
    and A: "cells H (backend a) = Some A" and B: "cells H (backend b) = Some B"
    and sh: "rows A = rows B" "cols A = cols B"
    and fin: "\<forall>ii<rows B. \<forall>jj<cols B. is_finite (coeff B ii jj)"
  shows "\<exists>a' H'. axpy a 0 b H = (Inr a', H')
      \<and> (\<forall>ii<rows A. \<forall>jj<cols A. get_entry a' ii jj H' = get_entry a ii jj H)"
proof -
  from axpy_equal_shape [OF wa wb A B sh, of 0] obtain a' H' where
    r: "axpy a 0 b H = (Inr a', H')"
    and c: "cells H' (backend a') = Some (plus_assign_scaled A 0 B)"
    by blast
  have "\<forall>ii<rows A. \<forall>jj<cols A. get_entry a' ii jj H' = get_entry a ii jj H"
    using c A fin sh by (simp add: get_entry_def plus_assign_scaled_def zero_times_finite)
  then show ?thesis
    using r by blast
qed

theorem axpy_zero_finite_witness:
  "consistent ieee_matrices [\<lparr>backend = 0\<rparr>] \<and> consistent ieee_matrices [\<lparr>backend = 1\<rparr>]
   \<and> get_entry \<lparr>backend = 1\<rparr> 0 0 ieee_matrices = Inr (Finite 3)
   \<and> (\<exists>a' H'. axpy \<lparr>backend = 0\<rparr> 0 \<lparr>backend = 1\<rparr> ieee_matrices = (Inr a', H')
         \<and> get_entry a' 0 0 H' = Inr (Finite 7) \<and> get_entry a' 1 1 H' = Inr (Finite 7))"
proof -
  let ?a = "\<lparr>backend = 0\<rparr>" and ?b = "\<lparr>backend = 1\<rparr>"
  let ?A = "\<lparr>rows = 2, cols = 2, coeff = (\<lambda>i j. Finite 7)\<rparr>"
  let ?B = "\<lparr>rows = 2, cols = 2, coeff = (\<lambda>i j. Finite 3)\<rparr>"
  have wa: "consistent ieee_matrices [?a]" and wb: "consistent ieee_matrices [?b]"
    by (simp_all add: ieee_matrices_eq consistent_single)
  have A: "cells ieee_matrices (backend ?a) = Some ?A" and B: "cells ieee_matrices (backend ?b) = Some ?B"
    by (simp_all add: ieee_matrices_eq)
  have fin: "\<forall>ii<rows ?B. \<forall>jj<cols ?B. is_finite (coeff ?B ii jj)"
    by simp
  have g: "get_entry ?a 0 0 ieee_matrices = Inr (Finite 7)" "get_entry ?a 1 1 ieee_matrices = Inr (Finite 7)"
    "get_entry ?b 0 0 ieee_matrices = Inr (Finite 3)"
    by (simp_all add: get_entry_def ieee_matrices_eq)
  from axpy_zero_finite [OF wa wb A B _ _ fin] obtain a' H' where
    u: "axpy ?a 0 ?b ieee_matrices = (Inr a', H')"
    and r: "\<forall>ii<2. \<forall>jj<2. get_entry a' ii jj H' = get_entry ?a ii jj ieee_matrices"
    by auto
  have "get_entry a' 0 0 H' = Inr (Finite 7)" "get_entry a' 1 1 H' = Inr (Finite 7)"
    using r g by simp_all
  then show ?thesis
    using wa wb u g by blast
qed

text \<open>
  The claim C6 as it was stated, for every \<open>b\<close> of the same shape, does not hold: with an
  infinite entry in \<open>b\<close> the entry \<open>7\<close> of \<open>a\<close> becomes NaN.
\<close>

theorem axpy_zero_counterexample:
  "get_entry \<lparr>backend = 0\<rparr> 0 0 ieee_matrices = Inr (Finite 7)
   \<and> fst (axpy \<lparr>backend = 0\<rparr> 0 \<lparr>backend = 2\<rparr> ieee_matrices) = Inr \<lparr>backend = 0\<rparr>
   \<and> get_entry \<lparr>backend = 0\<rparr> 0 0 (snd (axpy \<lparr>backend = 0\<rparr> 0 \<lparr>backend = 2\<rparr> ieee_matrices)) = Inr NaN"
  by (simp add: ieee_matrices_eq axpy_def backend_nonconst_def ensure_uniqueness_def store_def
      plus_assign_scaled_def get_entry_def zero_ieee_def)

section \<open>Properties of createCompressedSparsityPattern\<close>

lemma fold_insert_member:
  "c |\<in>| fold (\<lambda>col acc. if \<bar>g col\<bar> > t then finsert col acc else acc) xs acc
     \<longleftrightarrow> c |\<in>| acc \<or> (c \<in> set xs \<and> \<bar>g c\<bar> > t)"
  by (induction xs arbitrary: acc) auto

lemma compress_row_member:
  "c |\<in>| compress_row g t u acc \<longleftrightarrow> c |\<in>| acc \<or> (c |\<in>| u \<and> \<bar>g c\<bar> > t)"
  by (simp add: compress_row_def fold_insert_member)

lemma compress_rows_result:
  assumes "\<forall>r \<in> set rs. r < length u" and "length c = length u" and "distinct rs"
  shows "\<exists>c'. compress_rows rs u m t c = Inr c' \<and> length c' = length u
      \<and> (\<forall>r<length u. c' ! r = (if r \<in> set rs then compress_row (m r) t (u ! r) (c ! r) else c ! r))"
  using assms
proof (induction rs arbitrary: c)
  case Nil
  then show ?case by simp
next
  case (Cons row rest)
  let ?c1 = "c[row := compress_row (m row) t (u ! row) (c ! row)]"
  have row: "row < length u" "row \<notin> set rest"
    using Cons.prems by simp_all
  have step: "compress_rows (row # rest) u m t c = compress_rows rest u m t ?c1"
    using row Cons.prems(2) by (simp add: pattern_set_def pattern_size_def)
  have "\<forall>r \<in> set rest. r < length u" "length ?c1 = length u" "distinct rest"
    using Cons.prems by simp_all
  from Cons.IH [OF this] obtain c' where
    a: "compress_rows rest u m t ?c1 = Inr c'" and b: "length c' = length u"
    and d: "\<forall>r<length u. c' ! r = (if r \<in> set rest then compress_row (m r) t (u ! r) (?c1 ! r) else ?c1 ! r)"
    by blast
  have "\<forall>r<length u. c' ! r = (if r \<in> set (row # rest) then compress_row (m r) t (u ! r) (c ! r) else c ! r)"
  proof (intro allI impI)
    fix r assume r: "r < length u"
    show "c' ! r = (if r \<in> set (row # rest) then compress_row (m r) t (u ! r) (c ! r) else c ! r)"
      using d r row Cons.prems(2) by (cases "r = row") auto
  qed
  then show ?case
    using step a b by simp
qed

text \<open>
  C10. For every uncompressed pattern \<open>p\<close>, matrix \<open>m\<close> and threshold \<open>t \<ge> 0\<close>,
  \<open>createCompressedSparsityPattern\<close> returns a pattern with as many rows as \<open>p\<close> in which
  a column \<open>c\<close> belongs to row \<open>r\<close> if and only if \<open>c\<close> belongs to row \<open>r\<close> of \<open>p\<close> and
  the absolute value of \<open>m.get(r, c)\<close> is strictly greater than \<open>t\<close>; with the default
  threshold \<open>0\<close> no column whose stored value is zero is kept.
\<close>

theorem createCompressedSparsityPattern_correct:
  fixes t :: "'e::linordered_idom"
  assumes "0 \<le> t"
  shows "\<exists>q. createCompressedSparsityPattern p m t = Inr q
      \<and> pattern_size q = pattern_size p
      \<and> (\<forall>r<pattern_size p. \<forall>c. c |\<in>| q ! r \<longleftrightarrow> c |\<in>| p ! r \<and> \<bar>m r c\<bar> > t)
      \<and> (t = 0 \<longrightarrow> (\<forall>r<pattern_size p. \<forall>c. m r c = 0 \<longrightarrow> c |\<notin>| q ! r))"
proof -
  have "\<forall>r \<in> set [0 ..< length p]. r < length p" "length (replicate (length p) ({||} :: nat fset)) = length p"
    "distinct [0 ..< length p]"
    by simp_all
  from compress_rows_result [OF this, of m t] obtain q where
    a: "compress_rows [0 ..< length p] p m t (replicate (length p) {||}) = Inr q"
    and b: "length q = length p"
    and d: "\<forall>r<length p. q ! r = compress_row (m r) t (p ! r) {||}"
    by auto
  have e: "createCompressedSparsityPattern p m t = Inr q"
    using assms a by (simp add: createCompressedSparsityPattern_def pattern_size_def SparsityPatternDefault_new_def)
  have f: "\<forall>r<pattern_size p. \<forall>c. c |\<in>| q ! r \<longleftrightarrow> c |\<in>| p ! r \<and> \<bar>m r c\<bar> > t"
    using d by (simp add: compress_row_member pattern_size_def)
  have g: "t = 0 \<longrightarrow> (\<forall>r<pattern_size p. \<forall>c. m r c = 0 \<longrightarrow> c |\<notin>| q ! r)"
    using f by auto
  show ?thesis
    using e b f g by (auto simp: pattern_size_def)
qed

theorem createCompressedSparsityPattern_correct_witness:
  "(0::int) \<le> 0
   \<and> (\<exists>q. createCompressedSparsityPattern [{|0, 1|}, {|1|}] (\<lambda>r c. if r = c then 5 else (0::int)) 0 = Inr q
         \<and> pattern_size q = 2
         \<and> 0 |\<in>| q ! 0 \<and> 1 |\<notin>| q ! 0 \<and> 1 |\<in>| q ! 1)"
proof -
  let ?p = "[{|0, 1|}, {|1|}] :: nat fset list" and ?m = "\<lambda>r c :: nat. if r = c then 5 else (0::int)"
  have h: "(0::int) \<le> 0" by simp
  from createCompressedSparsityPattern_correct [OF h, of ?p ?m] obtain q where
    a: "createCompressedSparsityPattern ?p ?m 0 = Inr q" and b: "pattern_size q = pattern_size ?p"
    and c: "\<forall>r<pattern_size ?p. \<forall>c. c |\<in>| q ! r \<longleftrightarrow> c |\<in>| ?p ! r \<and> \<bar>?m r c\<bar> > 0"
    by blast
  have s: "pattern_size ?p = 2" by (simp add: pattern_size_def)
  have "0 |\<in>| q ! 0" "1 |\<notin>| q ! 0" "1 |\<in>| q ! 1"
    using c s by simp_all
  then show ?thesis
    using h a b s by auto
qed

section \<open>Properties of readSparseMatrix\<close>

lemma find_char_append_hit:
  "c \<notin> set tok \<Longrightarrow> find_char c (tok @ c # rest) = Some (length tok)"
  by (induction tok) auto

lemma find_char_miss: "c \<notin> set tok \<Longrightarrow> find_char c tok = None"
  by (induction tok) auto

lemma find_first_of_hit:
  "c \<notin> set tok \<Longrightarrow> find_first_of (pre @ tok @ c # rest) c (length pre) = Some (length pre + length tok)"
  by (simp add: find_first_of_def find_char_append_hit)

lemma find_first_of_miss:
  "c \<notin> set tok \<Longrightarrow> find_first_of (pre @ tok) c (length pre) = None"
  by (simp add: find_first_of_def find_char_miss)

lemma token_loop_comma:
  assumes "CHR '','' \<notin> set tok"
  shows "token_loop ex (pre @ tok @ CHR '','' # rest) (length pre) (Some (length pre + length tok)) temp el
       = token_loop ex (pre @ tok @ CHR '','' # rest) (length (pre @ tok @ '',''))
           (find_first_of (pre @ tok @ CHR '','' # rest) CHR '','' (length (pre @ tok @ '','')))
           (ex (length el = 2) tok temp) (el @ [ex (length el = 2) tok temp])"
  by (subst token_loop.simps) (simp add: substr_def size_t_minus_def Let_def)

lemma token_loop_last:
  assumes "CHR '','' \<notin> set tok"
  shows "token_loop ex (pre @ tok) (length pre) None temp el = Inr (el @ [ex (length el = 2) tok temp])"
  by (subst token_loop.simps) (simp add: substr_def size_t_minus_def Let_def)

lemma tokens_three_fields:
  assumes a: "CHR '','' \<notin> set a" and b: "CHR '','' \<notin> set b" and c: "CHR '','' \<notin> set c"
  shows "token_loop ex (a @ '','' @ b @ '','' @ c) 0 (find_first_of (a @ '','' @ b @ '','' @ c) CHR '','' 0) t []
       = Inr [ex False a t, ex False b (ex False a t), ex True c (ex False b (ex False a t))]"
proof -
  let ?row = "a @ '','' @ b @ '','' @ c"
  let ?ta = "ex False a t"
  let ?tb = "ex False b ?ta"
  have f0: "find_first_of ?row CHR '','' 0 = Some (length a)"
    using find_first_of_hit [OF a, of "[]" "b @ '','' @ c"] by simp
  have s1: "token_loop ex ?row 0 (Some (length a)) t []
      = token_loop ex ?row (length (a @ '','')) (find_first_of ?row CHR '','' (length (a @ '',''))) ?ta [?ta]"
    using token_loop_comma [OF a, of ex "[]" "b @ '','' @ c" t "[]"] by simp
  have f1: "find_first_of ?row CHR '','' (length (a @ '','')) = Some (length (a @ '','') + length b)"
    using find_first_of_hit [OF b, of "a @ '',''" c] by simp
  have s2: "token_loop ex ?row (length (a @ '','')) (Some (length (a @ '','') + length b)) ?ta [?ta]
      = token_loop ex ?row (length (a @ '','' @ b @ '','')) (find_first_of ?row CHR '','' (length (a @ '','' @ b @ '',''))) ?tb [?ta, ?tb]"
    using token_loop_comma [OF b, of ex "a @ '',''" c ?ta "[?ta]"] by simp
  have f2: "find_first_of ?row CHR '','' (length (a @ '','' @ b @ '','')) = None"
    using find_first_of_miss [OF c, of "a @ '','' @ b @ '',''"] by simp
  have s3: "token_loop ex ?row (length (a @ '','' @ b @ '','')) None ?tb [?ta, ?tb]
      = Inr [?ta, ?tb, ex True c ?tb]"
    using token_loop_last [OF c, of ex "a @ '','' @ b @ '',''" ?tb "[?ta, ?tb]"] by simp
  show ?thesis
    by (simp only: f0 s1 f1 s2 f2 s3)
qed

lemma tokens_trailing_comma:
  assumes a: "CHR '','' \<notin> set a" and b: "CHR '','' \<notin> set b" and c: "CHR '','' \<notin> set c"
  shows "token_loop ex (a @ '','' @ b @ '','' @ c @ '','') 0
           (find_first_of (a @ '','' @ b @ '','' @ c @ '','') CHR '','' 0) t []
       = Inr [ex False a t, ex False b (ex False a t), ex True c (ex False b (ex False a t)),
              ex False [] (ex True c (ex False b (ex False a t)))]"
proof -
  let ?row = "a @ '','' @ b @ '','' @ c @ '',''"
  let ?ta = "ex False a t"
  let ?tb = "ex False b ?ta"
  let ?tc = "ex True c ?tb"
  have e: "CHR '','' \<notin> set ([] :: string)" by simp
  have f0: "find_first_of ?row CHR '','' 0 = Some (length a)"
    using find_first_of_hit [OF a, of "[]" "b @ '','' @ c @ '',''"] by simp
  have s1: "token_loop ex ?row 0 (Some (length a)) t []
      = token_loop ex ?row (length (a @ '','')) (find_first_of ?row CHR '','' (length (a @ '',''))) ?ta [?ta]"
    using token_loop_comma [OF a, of ex "[]" "b @ '','' @ c @ '',''" t "[]"] by simp
  have f1: "find_first_of ?row CHR '','' (length (a @ '','')) = Some (length (a @ '','') + length b)"
    using find_first_of_hit [OF b, of "a @ '',''" "c @ '',''"] by simp
  have s2: "token_loop ex ?row (length (a @ '','')) (Some (length (a @ '','') + length b)) ?ta [?ta]
      = token_loop ex ?row (length (a @ '','' @ b @ '','')) (find_first_of ?row CHR '','' (length (a @ '','' @ b @ '',''))) ?tb [?ta, ?tb]"
    using token_loop_comma [OF b, of ex "a @ '',''" "c @ '',''" ?ta "[?ta]"] by simp
  have f2: "find_first_of ?row CHR '','' (length (a @ '','' @ b @ '','')) = Some (length (a @ '','' @ b @ '','') + length c)"
    using find_first_of_hit [OF c, of "a @ '','' @ b @ '',''" "[]"] by simp
  have s3: "token_loop ex ?row (length (a @ '','' @ b @ '','')) (Some (length (a @ '','' @ b @ '','') + length c)) ?tb [?ta, ?tb]
      = token_loop ex ?row (length ?row) (find_first_of ?row CHR '','' (length ?row)) ?tc [?ta, ?tb, ?tc]"
    using token_loop_comma [OF c, of ex "a @ '','' @ b @ '',''" "[]" ?tb "[?ta, ?tb]"] by simp
  have f3: "find_first_of ?row CHR '','' (length ?row) = None"
    using find_first_of_miss [OF e, of ?row] by simp
  have s4: "token_loop ex ?row (length ?row) None ?tc [?ta, ?tb, ?tc]
      = Inr [?ta, ?tb, ?tc, ex False [] ?tc]"
    using token_loop_last [OF e, of ex ?row ?tc "[?ta, ?tb, ?tc]"] by simp
  show ?thesis
    by (simp only: f0 s1 f1 s2 f2 s3 f3 s4)
qed

text \<open>
  C7, as the code has it. For every input line \<open>row,col,value\<close> followed by one trailing
  comma (three fields without a comma, then an empty fourth field), the loop of
  \<open>readSparseMatrix\<close> reads four tokens, the assertion that exactly three were read fails
  and no entry is added for the line. The same line without the trailing comma is read as
  three tokens and adds the single entry \<open>(row, col, value)\<close>.
\<close>

theorem readSparseMatrix_trailing_comma:
  assumes a: "CHR '','' \<notin> set a" and b: "CHR '','' \<notin> set b" and c: "CHR '','' \<notin> set c"
  shows "readSparseMatrix clear add ex t M [a @ '','' @ b @ '','' @ c @ '',''] = Inl assertion_failed
       \<and> readSparseMatrix clear add ex t M [a @ '','' @ b @ '','' @ c]
           = Inr (add (clear M) (ex False a t) (ex False b (ex False a t))
                    (ex True c (ex False b (ex False a t))))"
proof -
  have "read_lines ex t add [a @ '','' @ b @ '','' @ c @ '',''] (clear M) = Inl assertion_failed"
    by (subst read_lines.simps, subst tokens_trailing_comma [OF a b c]) simp
  moreover have "read_lines ex t add [a @ '','' @ b @ '','' @ c] (clear M)
      = Inr (add (clear M) (ex False a t) (ex False b (ex False a t))
               (ex True c (ex False b (ex False a t))))"
    by (subst read_lines.simps, subst tokens_three_fields [OF a b c]) simp
  ultimately show ?thesis
    by (simp only: readSparseMatrix_def)
qed

theorem readSparseMatrix_trailing_comma_witness:
  "CHR '','' \<notin> set ''1'' \<and> CHR '','' \<notin> set ''2'' \<and> CHR '','' \<notin> set ''3''
   \<and> readSparseMatrix triples_clear triples_add extract_digits 0 [] [''1,2,3,''] = Inl assertion_failed
   \<and> readSparseMatrix triples_clear triples_add extract_digits 0 [] [''1,2,3''] = Inr [(1, 2, 3)]"
proof -
  have a: "CHR '','' \<notin> set ''1''" and b: "CHR '','' \<notin> set ''2''" and c: "CHR '','' \<notin> set ''3''"
    by simp_all
  from readSparseMatrix_trailing_comma [OF a b c, of triples_clear triples_add extract_digits 0 "[]"]
  show ?thesis
    by (simp add: extract_digits_def triples_clear_def triples_add_def)
qed

text \<open>
  The claim C7 as it was stated, that a line with a trailing comma is parsed without a
  failed assertion and adds its entry, does not hold at the line \<open>1,2,3,\<close>.
\<close>

theorem readSparseMatrix_trailing_comma_counterexample:
  "readSparseMatrix triples_clear triples_add extract_digits 0 [] [''1,2,3,''] \<noteq> Inr [(1, 2, 3)]"
proof -
  have a: "CHR '','' \<notin> set ''1''" and b: "CHR '','' \<notin> set ''2''" and c: "CHR '','' \<notin> set ''3''"
    by simp_all
  have "read_lines extract_digits 0 triples_add [''1'' @ '','' @ ''2'' @ '','' @ ''3'' @ '',''] (triples_clear [])
      = Inl assertion_failed"
    by (subst read_lines.simps, subst tokens_trailing_comma [OF a b c]) simp
  then show ?thesis
    by (simp add: readSparseMatrix_def)
qed

section \<open>Properties of ExtendedParameterTree\<close>

lemma example_tree_lookup:
  "lookup example_tree ''grid.cells'' = Some ''16''" "lookup example_tree ''grid.size'' = None"
  "lookup example_tree ''visualize'' = Some ''true''"
  by (simp_all add: lookup.simps example_tree_def)

text \<open>
  C8. For every parameter tree \<open>t\<close> and key \<open>k\<close>: \<open>get< T >(k)\<close> without a default
  throws a \<open>RangeError\<close> if and only if \<open>k\<close> is absent from \<open>t\<close>. With a default,
  \<open>get(k, defaultValue)\<close> on an absent key returns \<open>defaultValue\<close> and writes the warning
  line to the output. When \<open>k\<close> is present both return the stored value (converted to
  \<open>T\<close>), and nothing is written.
\<close>

theorem parameter_tree_get:
  "((\<exists>msg. get conv t k = Inl (RangeError msg)) \<longleftrightarrow> \<not> BaseType_hasKey t k)
   \<and> (\<not> BaseType_hasKey t k \<longrightarrow>
         get_default hl conv t k d out = (d, out @ warning_message hl k))
   \<and> (BaseType_hasKey t k \<longrightarrow>
         (\<exists>s. lookup t k = Some s \<and> get conv t k = Inr (conv s)
            \<and> get_default hl conv t k d out = (conv s, out)))"
  by (auto simp: get_def get_default_def BaseType_hasKey_def BaseType_get_def BaseType_get_default_def)

theorem parameter_tree_get_witness:
  "BaseType_hasKey example_tree ''grid.cells'' \<and> \<not> BaseType_hasKey example_tree ''grid.size''
   \<and> get id example_tree ''grid.cells'' = Inr ''16''
   \<and> get_default no_highlight id example_tree ''grid.cells'' ''8'' [] = (''16'', [])
   \<and> (\<exists>msg. get id example_tree ''grid.size'' = Inl (RangeError msg))
   \<and> get_default no_highlight id example_tree ''grid.size'' ''8'' []
        = (''8'', ''WARNING: missing key '' @ [CHR 0x27] @ ''grid.size'' @ [CHR 0x27]
                   @ '' is replaced by given default value!'' @ [CHR 0x0A])"
proof -
  have p: "BaseType_hasKey example_tree ''grid.cells''" and a: "\<not> BaseType_hasKey example_tree ''grid.size''"
    by (simp_all add: BaseType_hasKey_def example_tree_lookup)
  from parameter_tree_get [of id example_tree "''grid.cells''" no_highlight "''8''" "[]"] p
  have 1: "get id example_tree ''grid.cells'' = Inr ''16''"
    "get_default no_highlight id example_tree ''grid.cells'' ''8'' [] = (''16'', [])"
    by (simp_all add: example_tree_lookup)
  from parameter_tree_get [of id example_tree "''grid.size''" no_highlight "''8''" "[]"] a
  have 2: "\<exists>msg. get id example_tree ''grid.size'' = Inl (RangeError msg)"
    "get_default no_highlight id example_tree ''grid.size'' ''8'' [] = (''8'', [] @ warning_message no_highlight ''grid.size'')"
    by simp_all
  show ?thesis
    using p a 1 2 by (simp add: warning_message_def no_highlight_def endl_def)
qed

section \<open>Properties of the text round trip\<close>

subsection \<open>Rounding to thirteen digits\<close>














subsection \<open>The text of a value and its extraction\<close>

lemma mod_ten_cases:
  "n mod 10 = 0 \<or> n mod 10 = 1 \<or> n mod 10 = 2 \<or> n mod 10 = 3 \<or> n mod 10 = 4 \<or> n mod 10 = 5
   \<or> n mod 10 = 6 \<or> n mod 10 = 7 \<or> n mod 10 = 8 \<or> n mod 10 = (9::nat)"
  by presburger

lemma is_digit_digit_char [simp]: "is_digit (digit_char n)"
  using mod_ten_cases [of n] by (auto simp: is_digit_def)

lemma digit_value_digit_char [simp]: "digit_value (digit_char n) = n mod 10"
  using mod_ten_cases [of n] by (auto simp: digit_value_def)

lemma not_digit [simp]:
  "\<not> is_digit CHR ''.''" "\<not> is_digit CHR ''e''" "\<not> is_digit CHR ''-''" "\<not> is_digit CHR ''+''"
  "\<not> is_digit CHR '',''" "\<not> is_digit CHR 0x0A"
  by (simp_all add: is_digit_def)

lemma digits_value_snoc [simp]: "digits_value (ds @ [c]) = 10 * digits_value ds + digit_value c"
  by (simp add: digits_value_def)

lemma digits_value_Nil [simp]: "digits_value [] = 0"
  by (simp add: digits_value_def)














subsection \<open>Writing and reading back\<close>




























end
